theory Spec2Isabelle
  imports Complex_Main "HOL-Library.Word" "HOL-Library.Sublist" "HOL-Library.Signed_Division"
    "HOL-Library.Multiset"
begin

section \<open>Go values used by the load tester\<close>

text \<open>
  Go's \<open>int\<close> and \<open>int64\<close> are 64-bit two's complement words on the platforms the
  Makefile builds for (amd64, arm64); \<open>time.Duration\<close> is an \<open>int64\<close> count of
  nanoseconds.  Arithmetic on them wraps; comparisons read them signed (\<open>sint\<close>).
  A \<open>time.Time\<close> is an instant, here a count of nanoseconds with \<open>0\<close> for Go's zero
  \<open>Time\<close>.
\<close>

type_synonym go_int = "64 word"
type_synonym int64 = "64 word"
type_synonym time_Duration = "64 word"
type_synonym time_Time = int

text \<open>
  A value of Go's \<open>error\<close> interface: \<open>None\<close> is \<open>nil\<close>, \<open>Some m\<close> is an error whose
  \<open>Error()\<close> method returns \<open>m\<close>.
\<close>

type_synonym go_error = "string option"

datatype go_panic = NilPointerDereference | IndexOutOfRange | MakechanSizeOutOfRange

subsection \<open>\<open>strings.ToLower\<close> and \<open>strings.Contains\<close>\<close>

text \<open>
  Strings are byte sequences, read as UTF-8.  \<open>Contains s substr\<close> holds when
  \<open>substr\<close> occurs in \<open>s\<close> as a contiguous block of bytes.
\<close>

definition Contains :: "string \<Rightarrow> string \<Rightarrow> bool" where
  "Contains s substr = sublist substr s"

text \<open>
  \<open>utf8.DecodeRune\<close>: the rune at the head of a string and its width in bytes.  A
  byte that starts no well-formed sequence (a stray continuation byte, an overlong or
  surrogate form, a value above \<open>U+10FFFF\<close>, a sequence cut short) is the rune
  \<open>U+FFFD\<close> of width 1.  The second byte of a sequence is checked against the range
  that its first byte allows, the later ones against \<open>0x80..0xBF\<close>.
\<close>

definition RuneError :: nat where
  "RuneError = 65533"

definition locb :: "char \<Rightarrow> bool" where
  "locb c = ((128::nat) \<le> of_char c \<and> of_char c \<le> (191::nat))"

definition accept_lo :: "nat \<Rightarrow> nat" where
  "accept_lo b0 = (if b0 = 224 then 160 else if b0 = 240 then 144 else 128)"

definition accept_hi :: "nat \<Rightarrow> nat" where
  "accept_hi b0 = (if b0 = 237 then 159 else if b0 = 244 then 143 else 191)"

definition accepts :: "nat \<Rightarrow> char \<Rightarrow> bool" where
  "accepts b0 c = (accept_lo b0 \<le> of_char c \<and> of_char c \<le> accept_hi b0)"

fun DecodeRune :: "string \<Rightarrow> nat \<times> nat" where
  "DecodeRune [] = (RuneError, 0)"
| "DecodeRune (c0 # cs) =
     (let b0 = (of_char c0 :: nat) in
      if b0 < 128 then (b0, 1)
      else if b0 < 194 \<or> 244 < b0 then (RuneError, 1)
      else if b0 < 224 then
        (case cs of
           c1 # _ \<Rightarrow>
             if accepts b0 c1 then (b0 mod 32 * 64 + of_char c1 mod 64, 2)
             else (RuneError, 1)
         | _ \<Rightarrow> (RuneError, 1))
      else if b0 < 240 then
        (case cs of
           c1 # c2 # _ \<Rightarrow>
             if accepts b0 c1 \<and> locb c2
             then (b0 mod 16 * 4096 + of_char c1 mod 64 * 64 + of_char c2 mod 64, 3)
             else (RuneError, 1)
         | _ \<Rightarrow> (RuneError, 1))
      else
        (case cs of
           c1 # c2 # c3 # _ \<Rightarrow>
             if accepts b0 c1 \<and> locb c2 \<and> locb c3
             then (b0 mod 8 * 262144 + of_char c1 mod 64 * 4096 + of_char c2 mod 64 * 64
                     + of_char c3 mod 64, 4)
             else (RuneError, 1)
         | _ \<Rightarrow> (RuneError, 1)))"

declare DecodeRune.simps [simp del]

text \<open>
  \<open>utf8.AppendRune\<close>: the UTF-8 bytes of a rune; a surrogate or a value above
  \<open>U+10FFFF\<close> is written as \<open>U+FFFD\<close>.
\<close>

definition EncodeRune :: "nat \<Rightarrow> string" where
  "EncodeRune r =
     (if r < 128 then [char_of r]
      else if r < 2048 then [char_of (192 + r div 64), char_of (128 + r mod 64)]
      else if 1114111 < r \<or> (55296 \<le> r \<and> r \<le> 57343)
      then [char_of (239::nat), char_of (191::nat), char_of (189::nat)]
      else if r < 65536
      then [char_of (224 + r div 4096), char_of (128 + r div 64 mod 64), char_of (128 + r mod 64)]
      else [char_of (240 + r div 262144), char_of (128 + r div 4096 mod 64),
            char_of (128 + r div 64 mod 64), char_of (128 + r mod 64)])"

text \<open>
  \<open>unicode.ToLower\<close>.  Below \<open>U+0080\<close> it maps \<open>A..Z\<close> to \<open>a..z\<close>.  Above, it
  looks the rune up in the case table of the \<open>unicode\<close> package (the simple
  lower-case mappings of the Unicode character database), whose lower-case column is
  written here as ranges \<open>(lo, hi, stride, target)\<close>: a rune
  \<open>lo + k * stride \<le> hi\<close> has the lower case \<open>target + k * stride\<close>.  Two entries of
  the table lower into ASCII: \<open>U+0130\<close> to \<open>i\<close> and the Kelvin sign \<open>U+212A\<close> to
  \<open>k\<close>.
\<close>

definition lower_case_ranges :: "(nat \<times> nat \<times> nat \<times> nat) list" where
  "lower_case_ranges =
    [(192, 214, 1, 224), (216, 222, 1, 248), (256, 302, 2, 257), (304, 304, 1, 105),
     (306, 310, 2, 307), (313, 327, 2, 314), (330, 374, 2, 331), (376, 376, 1, 255),
     (377, 381, 2, 378), (385, 385, 1, 595), (386, 388, 2, 387), (390, 390, 1, 596),
     (391, 391, 1, 392), (393, 394, 1, 598), (395, 395, 1, 396), (398, 398, 1, 477),
     (399, 399, 1, 601), (400, 400, 1, 603), (401, 401, 1, 402), (403, 403, 1, 608),
     (404, 404, 1, 611), (406, 406, 1, 617), (407, 407, 1, 616), (408, 408, 1, 409),
     (412, 412, 1, 623), (413, 413, 1, 626), (415, 415, 1, 629), (416, 420, 2, 417),
     (422, 422, 1, 640), (423, 423, 1, 424), (425, 425, 1, 643), (428, 428, 1, 429),
     (430, 430, 1, 648), (431, 431, 1, 432), (433, 434, 1, 650), (435, 437, 2, 436),
     (439, 439, 1, 658), (440, 440, 1, 441), (444, 444, 1, 445), (452, 452, 1, 454),
     (453, 453, 1, 454), (455, 455, 1, 457), (456, 456, 1, 457), (458, 458, 1, 460),
     (459, 475, 2, 460), (478, 494, 2, 479), (497, 497, 1, 499), (498, 500, 2, 499),
     (502, 502, 1, 405), (503, 503, 1, 447), (504, 542, 2, 505), (544, 544, 1, 414),
     (546, 562, 2, 547), (570, 570, 1, 11365), (571, 571, 1, 572), (573, 573, 1, 410),
     (574, 574, 1, 11366), (577, 577, 1, 578), (579, 579, 1, 384), (580, 580, 1, 649),
     (581, 581, 1, 652), (582, 590, 2, 583), (880, 882, 2, 881), (886, 886, 1, 887),
     (895, 895, 1, 1011), (902, 902, 1, 940), (904, 906, 1, 941), (908, 908, 1, 972),
     (910, 911, 1, 973), (913, 929, 1, 945), (931, 939, 1, 963), (975, 975, 1, 983),
     (984, 1006, 2, 985), (1012, 1012, 1, 952), (1015, 1015, 1, 1016), (1017, 1017, 1, 1010),
     (1018, 1018, 1, 1019), (1021, 1023, 1, 891), (1024, 1039, 1, 1104), (1040, 1071, 1, 1072),
     (1120, 1152, 2, 1121), (1162, 1214, 2, 1163), (1216, 1216, 1, 1231),
     (1217, 1229, 2, 1218), (1232, 1326, 2, 1233), (1329, 1366, 1, 1377),
     (4256, 4293, 1, 11520), (4295, 4295, 1, 11559), (4301, 4301, 1, 11565),
     (5024, 5103, 1, 43888), (5104, 5109, 1, 5112), (7312, 7354, 1, 4304),
     (7357, 7359, 1, 4349), (7680, 7828, 2, 7681), (7838, 7838, 1, 223), (7840, 7934, 2, 7841),
     (7944, 7951, 1, 7936), (7960, 7965, 1, 7952), (7976, 7983, 1, 7968),
     (7992, 7999, 1, 7984), (8008, 8013, 1, 8000), (8025, 8031, 2, 8017),
     (8040, 8047, 1, 8032), (8072, 8079, 1, 8064), (8088, 8095, 1, 8080),
     (8104, 8111, 1, 8096), (8120, 8121, 1, 8112), (8122, 8123, 1, 8048),
     (8124, 8124, 1, 8115), (8136, 8139, 1, 8050), (8140, 8140, 1, 8131),
     (8152, 8153, 1, 8144), (8154, 8155, 1, 8054), (8168, 8169, 1, 8160),
     (8170, 8171, 1, 8058), (8172, 8172, 1, 8165), (8184, 8185, 1, 8056),
     (8186, 8187, 1, 8060), (8188, 8188, 1, 8179), (8486, 8486, 1, 969), (8490, 8490, 1, 107),
     (8491, 8491, 1, 229), (8498, 8498, 1, 8526), (8544, 8559, 1, 8560), (8579, 8579, 1, 8580),
     (9398, 9423, 1, 9424), (11264, 11311, 1, 11312), (11360, 11360, 1, 11361),
     (11362, 11362, 1, 619), (11363, 11363, 1, 7549), (11364, 11364, 1, 637),
     (11367, 11371, 2, 11368), (11373, 11373, 1, 593), (11374, 11374, 1, 625),
     (11375, 11375, 1, 592), (11376, 11376, 1, 594), (11378, 11378, 1, 11379),
     (11381, 11381, 1, 11382), (11390, 11391, 1, 575), (11392, 11490, 2, 11393),
     (11499, 11501, 2, 11500), (11506, 11506, 1, 11507), (42560, 42604, 2, 42561),
     (42624, 42650, 2, 42625), (42786, 42798, 2, 42787), (42802, 42862, 2, 42803),
     (42873, 42875, 2, 42874), (42877, 42877, 1, 7545), (42878, 42886, 2, 42879),
     (42891, 42891, 1, 42892), (42893, 42893, 1, 613), (42896, 42898, 2, 42897),
     (42902, 42920, 2, 42903), (42922, 42922, 1, 614), (42923, 42923, 1, 604),
     (42924, 42924, 1, 609), (42925, 42925, 1, 620), (42926, 42926, 1, 618),
     (42928, 42928, 1, 670), (42929, 42929, 1, 647), (42930, 42930, 1, 669),
     (42931, 42931, 1, 43859), (42932, 42946, 2, 42933), (42948, 42948, 1, 42900),
     (42949, 42949, 1, 642), (42950, 42950, 1, 7566), (42951, 42953, 2, 42952),
     (42960, 42960, 1, 42961), (42966, 42968, 2, 42967), (42997, 42997, 1, 42998),
     (65313, 65338, 1, 65345), (66560, 66599, 1, 66600), (66736, 66771, 1, 66776),
     (66928, 66938, 1, 66967), (66940, 66954, 1, 66979), (66956, 66962, 1, 66995),
     (66964, 66965, 1, 67003), (68736, 68786, 1, 68800), (71840, 71871, 1, 71872),
     (93760, 93791, 1, 93792), (125184, 125217, 1, 125218)]"

fun in_range :: "nat \<Rightarrow> nat \<times> nat \<times> nat \<times> nat \<Rightarrow> bool" where
  "in_range r (lo, hi, stride, target) = (lo \<le> r \<and> r \<le> hi \<and> (r - lo) mod stride = 0)"

definition unicode_ToLower :: "nat \<Rightarrow> nat" where
  "unicode_ToLower r =
     (if r \<le> 127 then (if 65 \<le> r \<and> r \<le> 90 then r + 32 else r)
      else (case find (in_range r) lower_case_ranges of
              Some (lo, hi, stride, target) \<Rightarrow> target + (r - lo)
            | None \<Rightarrow> r))"

text \<open>
  \<open>strings.ToLower\<close>: every rune of the string, decoded as above, is replaced by the
  encoding of its lower case; an ill-formed byte therefore comes out as the three
  bytes of \<open>U+FFFD\<close>.  (The library's shortcuts for strings that are all ASCII or that
  nothing changes return the same bytes.)
\<close>

function ToLower :: "string \<Rightarrow> string" where
  "ToLower [] = []"
| "ToLower (c # cs) =
     (case DecodeRune (c # cs) of
        (r, w) \<Rightarrow> EncodeRune (unicode_ToLower r) @ ToLower (drop (w - 1) cs))"
  by pat_completeness simp_all
termination
  by (relation "measure length") simp_all

declare ToLower.simps(2) [simp del]

text \<open>An ASCII byte, and the lower case of one.\<close>

definition isASCII :: "char \<Rightarrow> bool" where
  "isASCII c = ((of_char c :: nat) < 128)"

definition toLowerByte :: "char \<Rightarrow> char" where
  "toLowerByte c =
     (if (65::nat) \<le> of_char c \<and> of_char c \<le> (90::nat)
      then char_of (of_char c + (32::nat)) else c)"

section \<open>Error categories (loadtest.go)\<close>

definition ErrorCategoryTimeout :: string where
  "ErrorCategoryTimeout = ''timeout''"
definition ErrorCategoryConnectionRefused :: string where
  "ErrorCategoryConnectionRefused = ''connection_refused''"
definition ErrorCategoryUnexpectedResponse :: string where
  "ErrorCategoryUnexpectedResponse = ''unexpected_response''"
definition ErrorCategoryInvalidData :: string where
  "ErrorCategoryInvalidData = ''invalid_data''"
definition ErrorCategoryAuthFailure :: string where
  "ErrorCategoryAuthFailure = ''authentication_failure''"
definition ErrorCategoryNetworkError :: string where
  "ErrorCategoryNetworkError = ''network_error''"
definition ErrorCategoryProtocolError :: string where
  "ErrorCategoryProtocolError = ''protocol_error''"
definition ErrorCategoryResourceExhaustion :: string where
  "ErrorCategoryResourceExhaustion = ''resource_exhaustion''"
definition ErrorCategoryUnknown :: string where
  "ErrorCategoryUnknown = ''unknown''"

text \<open>The nine category names, in the order \<open>initializeErrorCategories\<close> creates them.\<close>

definition all_categories :: "string list" where
  "all_categories =
     [ErrorCategoryTimeout, ErrorCategoryConnectionRefused, ErrorCategoryUnexpectedResponse,
      ErrorCategoryInvalidData, ErrorCategoryAuthFailure, ErrorCategoryNetworkError,
      ErrorCategoryProtocolError, ErrorCategoryResourceExhaustion, ErrorCategoryUnknown]"

text \<open>\<open>categorizeError\<close>, branch for branch as in the source.\<close>

definition categorizeError :: "go_error \<Rightarrow> string" where
  "categorizeError err =
     (case err of
        None \<Rightarrow> ErrorCategoryUnknown
      | Some e \<Rightarrow>
          (let errMsg = ToLower e in
           if Contains errMsg ''timeout'' \<or>
              Contains errMsg ''deadline exceeded'' \<or>
              Contains errMsg ''handshake timeout''
           then ErrorCategoryTimeout
           else if Contains errMsg ''connection refused'' \<or>
              Contains errMsg ''connect: connection refused'' \<or>
              Contains errMsg ''connectex: no connection could be made'' \<or>
              Contains errMsg
                ''no connection could be made because the target machine actively refused''
           then ErrorCategoryConnectionRefused
           else if Contains errMsg ''no such host'' \<or>
              Contains errMsg ''network unreachable'' \<or>
              Contains errMsg ''no route to host'' \<or>
              Contains errMsg ''dns''
           then ErrorCategoryNetworkError
           else if Contains errMsg ''unauthorized'' \<or>
              Contains errMsg ''forbidden'' \<or>
              Contains errMsg ''authentication'' \<or>
              Contains errMsg ''401'' \<or>
              Contains errMsg ''403''
           then ErrorCategoryAuthFailure
           else if Contains errMsg ''bad handshake'' \<or>
              Contains errMsg ''handshake error'' \<or>
              Contains errMsg ''handshake'' \<or>
              Contains errMsg ''websocket'' \<or>
              Contains errMsg ''upgrade'' \<or>
              Contains errMsg ''protocol''
           then ErrorCategoryProtocolError
           else if Contains errMsg ''too many'' \<or>
              Contains errMsg ''resource temporarily unavailable'' \<or>
              Contains errMsg ''out of memory'' \<or>
              Contains errMsg ''no buffer space available''
           then ErrorCategoryResourceExhaustion
           else if Contains errMsg ''unexpected'' \<or>
              Contains errMsg ''invalid response'' \<or>
              Contains errMsg ''bad response''
           then ErrorCategoryUnexpectedResponse
           else if Contains errMsg ''invalid'' \<or>
              Contains errMsg ''malformed'' \<or>
              Contains errMsg ''parse''
           then ErrorCategoryInvalidData
           else ErrorCategoryUnknown))"

subsection \<open>The classifier as a priority table\<close>

text \<open>
  The specification's reading of the classifier: an ordered table of rules, each a
  list of substrings and the category it yields; the first rule with a matching
  substring decides, and \<open>unknown\<close> is the result when no rule matches.
\<close>

definition classifier_rules :: "(string list \<times> string) list" where
  "classifier_rules =
     [([''timeout'', ''deadline exceeded'', ''handshake timeout''], ErrorCategoryTimeout),
      ([''connection refused'', ''connect: connection refused'',
        ''connectex: no connection could be made'',
        ''no connection could be made because the target machine actively refused''],
       ErrorCategoryConnectionRefused),
      ([''no such host'', ''network unreachable'', ''no route to host'', ''dns''],
       ErrorCategoryNetworkError),
      ([''unauthorized'', ''forbidden'', ''authentication'', ''401'', ''403''],
       ErrorCategoryAuthFailure),
      ([''bad handshake'', ''handshake error'', ''handshake'', ''websocket'', ''upgrade'',
        ''protocol''], ErrorCategoryProtocolError),
      ([''too many'', ''resource temporarily unavailable'', ''out of memory'',
        ''no buffer space available''], ErrorCategoryResourceExhaustion),
      ([''unexpected'', ''invalid response'', ''bad response''],
       ErrorCategoryUnexpectedResponse),
      ([''invalid'', ''malformed'', ''parse''], ErrorCategoryInvalidData)]"

definition rule_matches :: "string \<Rightarrow> string list \<times> string \<Rightarrow> bool" where
  "rule_matches m r = list_ex (Contains m) (fst r)"

fun first_match :: "(string list \<times> string) list \<Rightarrow> string \<Rightarrow> string" where
  "first_match [] m = ErrorCategoryUnknown"
| "first_match (r # rs) m = (if rule_matches m r then snd r else first_match rs m)"

section \<open>The aggregate and its recording operations (loadtest.go)\<close>

record ErrorCategoryInfo =
  Count :: go_int
  Description :: string
  Examples :: "string list"

record TestOptions =
  URL :: string
  Duration :: string
  Connections :: go_int
  Message :: string
  Loop :: go_int

text \<open>
  \<open>TestResults\<close> without its mutex: every function below that writes the aggregate
  does so between \<open>mu.Lock()\<close> and \<open>mu.Unlock()\<close>, and every reader
  (\<open>collectMetrics\<close>, \<open>printResults\<close>, \<open>addEntry\<close>) holds \<open>mu.RLock()\<close>, so each
  such function is one atomic step on the aggregate.  \<open>ErrorCategories\<close> maps each name
  to its own \<open>ErrorCategoryInfo\<close> object; no two keys share one.
\<close>

record TestResults =
  TotalRequests :: int64
  SuccessfulReqs :: int64
  FailedReqs :: int64
  TotalLatency :: time_Duration
  Latencies :: "time_Duration list"
  PeakResponseTime :: time_Duration
  StartTime :: time_Time
  EndTime :: time_Time
  BytesSent :: int64
  BytesReceived :: int64
  ErrorCounts :: "string \<rightharpoonup> go_int"
  StatusCodeCount :: "go_int \<rightharpoonup> go_int"
  ErrorCategories :: "string \<rightharpoonup> ErrorCategoryInfo"

definition newCategory :: "string \<Rightarrow> ErrorCategoryInfo" where
  "newCategory d = \<lparr>Count = 0, Description = d, Examples = []\<rparr>"

definition initializeErrorCategories :: "string \<rightharpoonup> ErrorCategoryInfo" where
  "initializeErrorCategories =
     [ErrorCategoryTimeout \<mapsto>
        newCategory ''Requests that timed out (handshake, read, write timeouts)'',
      ErrorCategoryConnectionRefused \<mapsto>
        newCategory ''Connection attempts rejected by the server'',
      ErrorCategoryUnexpectedResponse \<mapsto>
        newCategory ''Unexpected HTTP responses or WebSocket upgrade failures'',
      ErrorCategoryInvalidData \<mapsto>
        newCategory ''Invalid or malformed data received'',
      ErrorCategoryAuthFailure \<mapsto>
        newCategory ''Authentication or authorization failures'',
      ErrorCategoryNetworkError \<mapsto>
        newCategory ''Network-related errors (DNS, routing, etc.)'',
      ErrorCategoryProtocolError \<mapsto>
        newCategory ''WebSocket protocol violations or errors'',
      ErrorCategoryResourceExhaustion \<mapsto>
        newCategory ''Resource exhaustion (too many connections, memory, etc.)'',
      ErrorCategoryUnknown \<mapsto>
        newCategory ''Uncategorized or unknown errors'']"

text \<open>
  The aggregate \<open>NewLoadTest\<close> allocates: empty maps and slices, the nine categories,
  and Go's zero value in every other field.
\<close>

definition newTestResults :: TestResults where
  "newTestResults =
     \<lparr>TotalRequests = 0, SuccessfulReqs = 0, FailedReqs = 0, TotalLatency = 0,
      Latencies = [], PeakResponseTime = 0, StartTime = 0, EndTime = 0,
      BytesSent = 0, BytesReceived = 0, ErrorCounts = Map.empty,
      StatusCodeCount = Map.empty, ErrorCategories = initializeErrorCategories\<rparr>"

text \<open>
  \<open>LoadTest\<close>: the options, the aggregate, whether the context \<open>ctx\<close> has been
  cancelled, and the verbose flag.  The metrics sink, the progress bar and the log only
  receive output and are left out.
\<close>

record LoadTest =
  opts :: TestOptions
  results :: TestResults
  ctxDone :: bool
  verbose :: bool

definition NewLoadTest :: "TestOptions \<Rightarrow> LoadTest" where
  "NewLoadTest os = \<lparr>opts = os, results = newTestResults, ctxDone = False, verbose = False\<rparr>"

text \<open>\<open>m[k]++\<close> on a \<open>map[string]int\<close>: a missing key reads as \<open>0\<close>.\<close>

definition map_incr :: "('k \<rightharpoonup> go_int) \<Rightarrow> 'k \<Rightarrow> ('k \<rightharpoonup> go_int)" where
  "map_incr m k = m(k \<mapsto> (case m k of None \<Rightarrow> 0 | Some c \<Rightarrow> c) + 1)"

text \<open>
  \<open>recordError\<close>.  The last branch calls \<open>err.Error()\<close>, which panics on a \<open>nil\<close>
  error; both call sites pass a non-nil one.
\<close>

definition recordError :: "string \<Rightarrow> go_error \<Rightarrow> TestResults \<Rightarrow> go_panic + TestResults" where
  "recordError errorType err r =
     (let r1 = r\<lparr>TotalRequests := TotalRequests r + 1\<rparr>;
          r2 = r1\<lparr>FailedReqs := FailedReqs r1 + 1\<rparr>;
          r3 = r2\<lparr>ErrorCounts := map_incr (ErrorCounts r2) errorType\<rparr>;
          category = categorizeError err
      in case ErrorCategories r3 category of
           None \<Rightarrow> Inr r3
         | Some categoryInfo \<Rightarrow>
             (let info1 = categoryInfo\<lparr>Count := Count categoryInfo + 1\<rparr> in
              if length (Examples info1) < 3
              then (case err of
                      None \<Rightarrow> Inl NilPointerDereference
                    | Some msg \<Rightarrow>
                        Inr (r3\<lparr>ErrorCategories := (ErrorCategories r3)
                               (category \<mapsto> info1\<lparr>Examples := Examples info1 @ [msg]\<rparr>)\<rparr>))
              else Inr (r3\<lparr>ErrorCategories := (ErrorCategories r3)(category \<mapsto> info1)\<rparr>)))"

text \<open>\<open>fmt.Sprintf("%d", n)\<close>: the decimal digits of an \<open>int\<close>.\<close>

fun digits :: "nat \<Rightarrow> string" where
  "digits n = (if n < 10 then [char_of (48 + n)] else digits (n div 10) @ [char_of (48 + n mod 10)])"

definition itoa :: "int \<Rightarrow> string" where
  "itoa i = (if i < 0 then CHR ''-'' # digits (nat (- i)) else digits (nat i))"

text \<open>
  \<open>sendMessage\<close>.  \<open>werr\<close> is what \<open>client.WriteMessage\<close> returned and \<open>latency\<close>
  what \<open>time.Since(startTime)\<close> measured after it.
\<close>

definition sendMessage ::
  "TestOptions \<Rightarrow> int \<Rightarrow> int \<Rightarrow> go_error \<Rightarrow> time_Duration \<Rightarrow> TestResults \<Rightarrow> go_panic + TestResults"
where
  "sendMessage os connID msgID werr latency r =
     (case werr of
        Some e \<Rightarrow> recordError (''send_failed_'' @ itoa connID @ ''_'' @ itoa msgID) (Some e) r
      | None \<Rightarrow>
         (let r1 = r\<lparr>TotalRequests := TotalRequests r + 1\<rparr>;
              r2 = r1\<lparr>SuccessfulReqs := SuccessfulReqs r1 + 1\<rparr>;
              r3 = r2\<lparr>TotalLatency := TotalLatency r2 + latency\<rparr>;
              r4 = r3\<lparr>Latencies := Latencies r3 @ [latency]\<rparr>;
              r5 = (if sint (PeakResponseTime r4) < sint latency
                    then r4\<lparr>PeakResponseTime := latency\<rparr> else r4)
          in Inr (r5\<lparr>BytesSent := BytesSent r5 + word_of_nat (length (Message os))\<rparr>)))"

text \<open>\<open>OnMessage\<close>: a received message of \<open>n\<close> bytes.\<close>

definition OnMessage :: "nat \<Rightarrow> TestResults \<Rightarrow> TestResults" where
  "OnMessage n r = r\<lparr>BytesReceived := BytesReceived r + word_of_nat n\<rparr>"

text \<open>
  The operations that write the aggregate, and a sequence of them applied one after
  the other in the order in which they enter the critical section.
\<close>

datatype recording =
    SendMessage int int go_error time_Duration
  | RecordError string string
  | Received nat

fun record_op :: "TestOptions \<Rightarrow> recording \<Rightarrow> TestResults \<Rightarrow> go_panic + TestResults" where
  "record_op os (SendMessage connID msgID werr latency) r = sendMessage os connID msgID werr latency r"
| "record_op os (RecordError errorType msg) r = recordError errorType (Some msg) r"
| "record_op os (Received n) r = Inr (OnMessage n r)"

fun record_all :: "TestOptions \<Rightarrow> recording list \<Rightarrow> TestResults \<Rightarrow> go_panic + TestResults" where
  "record_all os [] r = Inr r"
| "record_all os (x # xs) r =
     (case record_op os x r of Inl p \<Rightarrow> Inl p | Inr r' \<Rightarrow> record_all os xs r')"

text \<open>Which operations count as an attempt, and which of those failed, with what message.\<close>

fun is_attempt :: "recording \<Rightarrow> bool" where
  "is_attempt (Received n) = False"
| "is_attempt _ = True"

fun failure_message :: "recording \<Rightarrow> string option" where
  "failure_message (SendMessage connID msgID werr latency) = werr"
| "failure_message (RecordError errorType msg) = Some msg"
| "failure_message (Received n) = None"

definition attempts :: "recording list \<Rightarrow> nat" where
  "attempts xs = length (filter is_attempt xs)"

definition failure_messages :: "recording list \<Rightarrow> string list" where
  "failure_messages xs = List.map_filter failure_message xs"

text \<open>
  What one failure does to the entry of its category: the count goes up and the
  message is kept while fewer than three are stored.
\<close>

definition bump_info :: "string \<Rightarrow> ErrorCategoryInfo \<Rightarrow> ErrorCategoryInfo" where
  "bump_info m info =
     info\<lparr>Count := Count info + 1,
          Examples := (if length (Examples info) < 3 then Examples info @ [m] else Examples info)\<rparr>"

text \<open>The messages of the failures that \<open>categorizeError\<close> puts into category \<open>c\<close>, in order.\<close>

definition classified :: "string \<Rightarrow> recording list \<Rightarrow> string list" where
  "classified c xs = filter (\<lambda>m. categorizeError (Some m) = c) (failure_messages xs)"

section \<open>Integer division, indexing and \<open>float64\<close>\<close>

text \<open>
  Go's \<open>/\<close> on integers truncates towards zero (\<open>sdiv\<close> on \<open>int\<close>); every
  division below has a divisor that is not zero where it is reached.  Indexing a slice
  panics outside \<open>0 \<le> i < len\<close>.
\<close>

definition go_div :: "64 word \<Rightarrow> 64 word \<Rightarrow> 64 word" where
  "go_div a b = word_of_int (sint a sdiv sint b)"

definition go_index :: "'a list \<Rightarrow> go_int \<Rightarrow> go_panic + 'a" where
  "go_index xs i =
     (if 0 \<le> sint i \<and> nat (sint i) < length xs then Inr (xs ! nat (sint i))
      else Inl IndexOutOfRange)"

text \<open>
  \<open>float64\<close> with its special values.  A finite value is the real number it stands
  for: rounding and the sign of zero are left out.  Division and multiplication follow
  IEEE 754 on the special values: \<open>0/0\<close> is \<open>NaN\<close>, a non-zero value over zero is an
  infinity, and \<open>NaN\<close> propagates.
\<close>

datatype float64 = NaN | PosInf | NegInf | Finite real

definition float64_of_int :: "64 word \<Rightarrow> float64" where
  "float64_of_int i = Finite (real_of_int (sint i))"

fun fdiv :: "float64 \<Rightarrow> float64 \<Rightarrow> float64" where
  "fdiv (Finite a) (Finite b) =
     (if b = 0 then (if a = 0 then NaN else if 0 < a then PosInf else NegInf)
      else Finite (a / b))"
| "fdiv (Finite a) PosInf = Finite 0"
| "fdiv (Finite a) NegInf = Finite 0"
| "fdiv PosInf (Finite b) = (if b < 0 then NegInf else PosInf)"
| "fdiv NegInf (Finite b) = (if b < 0 then PosInf else NegInf)"
| "fdiv _ _ = NaN"

fun fmul :: "float64 \<Rightarrow> float64 \<Rightarrow> float64" where
  "fmul (Finite a) (Finite b) = Finite (a * b)"
| "fmul (Finite a) PosInf = (if a = 0 then NaN else if 0 < a then PosInf else NegInf)"
| "fmul (Finite a) NegInf = (if a = 0 then NaN else if 0 < a then NegInf else PosInf)"
| "fmul PosInf (Finite b) = (if b = 0 then NaN else if 0 < b then PosInf else NegInf)"
| "fmul NegInf (Finite b) = (if b = 0 then NaN else if 0 < b then NegInf else PosInf)"
| "fmul PosInf PosInf = PosInf"
| "fmul PosInf NegInf = NegInf"
| "fmul NegInf PosInf = NegInf"
| "fmul NegInf NegInf = PosInf"
| "fmul _ _ = NaN"

text \<open>\<open>Duration.Seconds()\<close> and \<open>Time.Sub\<close>, which saturates at the ends of \<open>int64\<close>.\<close>

definition Seconds :: "time_Duration \<Rightarrow> float64" where
  "Seconds d = Finite (real_of_int (sint d) / 1000000000)"

definition Sub :: "time_Time \<Rightarrow> time_Time \<Rightarrow> time_Duration" where
  "Sub t u = word_of_int (max (- (2 ^ 63)) (min (2 ^ 63 - 1) (t - u)))"

section \<open>Percentiles and reports\<close>

text \<open>
  \<open>calculatePercentile\<close> (utilities).  \<open>sort.Slice\<close> with the signed comparison leaves the
  slice in ascending order; the function also leaves the caller's slice sorted, which
  no result depends on.
\<close>

definition calculatePercentile :: "time_Duration list \<Rightarrow> go_int \<Rightarrow> go_panic + time_Duration" where
  "calculatePercentile latencies percentile =
     (if length latencies = 0 then Inr 0
      else
        (let sorted = sort_key sint latencies;
             len = (word_of_nat (length sorted) :: go_int);
             index = go_div (percentile * len) 100;
             index' = (if sint len \<le> sint index then len - 1 else index)
         in go_index sorted index'))"

text \<open>
  The numbers \<open>printResults\<close> prints under "Performance Metrics".  The per-category
  lines that follow them are left out.
\<close>

record Report =
  totalRequests :: int64
  successfulReqs :: int64
  failedReqs :: int64
  successPercent :: float64
  failedPercent :: float64
  requestsPerSec :: float64
  avgLatency :: time_Duration
  p50Latency :: time_Duration
  peakResponseTime :: time_Duration
  throughput :: float64

definition printResults :: "LoadTest \<Rightarrow> Report" where
  "printResults lt =
     (let r = results lt;
          duration = Sub (EndTime r) (StartTime r);
          avg = (if 0 < sint (SuccessfulReqs r)
                 then go_div (TotalLatency r) (SuccessfulReqs r) else 0);
          p50 = (if 0 < length (Latencies r)
                 then Latencies r ! (length (Latencies r) div 2) else 0)
      in \<lparr>totalRequests = TotalRequests r,
          successfulReqs = SuccessfulReqs r,
          failedReqs = FailedReqs r,
          successPercent =
            fmul (fdiv (float64_of_int (SuccessfulReqs r)) (float64_of_int (TotalRequests r)))
                 (Finite 100),
          failedPercent =
            fmul (fdiv (float64_of_int (FailedReqs r)) (float64_of_int (TotalRequests r)))
                 (Finite 100),
          requestsPerSec = fdiv (float64_of_int (TotalRequests r)) (Seconds duration),
          avgLatency = avg,
          p50Latency = p50,
          peakResponseTime = PeakResponseTime r,
          throughput =
            fdiv (float64_of_int (BytesSent r + BytesReceived r)) (Seconds duration)\<rparr>)"

text \<open>
  \<open>addEntry\<close> (history): the computed fields of the new \<open>TestHistoryEntry\<close>; the
  others are copies of the options and counters.  Writing the file is left out.
\<close>

record TestHistoryEntry =
  ID :: go_int
  ActualDuration :: float64
  SuccessRate :: float64
  AvgLatency :: float64
  P50Latency :: float64
  RequestsPerSec :: float64
  Throughput :: float64

definition addEntry :: "TestHistoryEntry list \<Rightarrow> LoadTest \<Rightarrow> TestHistoryEntry list" where
  "addEntry entries lt =
     (let r = results lt;
          duration = Sub (EndTime r) (StartTime r);
          avg = (if 0 < sint (SuccessfulReqs r)
                 then fdiv (fdiv (float64_of_int (TotalLatency r))
                                 (float64_of_int (SuccessfulReqs r))) (Finite 1000000)
                 else Finite 0);
          p50 = (if 0 < length (Latencies r)
                 then (let sortedLatencies = sort_key sint (Latencies r)
                       in fdiv (float64_of_int
                                  (sortedLatencies ! (length sortedLatencies div 2)))
                               (Finite 1000000))
                 else Finite 0);
          rps = fdiv (float64_of_int (TotalRequests r)) (Seconds duration);
          tp = fdiv (float64_of_int (BytesSent r + BytesReceived r)) (Seconds duration);
          successRate =
            fmul (fdiv (float64_of_int (SuccessfulReqs r)) (float64_of_int (TotalRequests r)))
                 (Finite 100);
          newID = (if 0 < length entries then ID (last entries) + 1 else 1)
      in entries @
         [\<lparr>ID = newID, ActualDuration = Seconds duration, SuccessRate = successRate,
           AvgLatency = avg, P50Latency = p50, RequestsPerSec = rps, Throughput = tp\<rparr>])"

section \<open>Workers and the run (loadtest.go)\<close>

text \<open>
  What the network and the clock do to one worker: the result of \<open>gws.NewClient\<close>,
  and for the iteration \<open>i\<close> of its loop whether \<open>ctx.Done()\<close> is closed when the
  \<open>select\<close> runs, what \<open>WriteMessage\<close> returns and the latency measured.
\<close>

record conn_env =
  dial :: go_error
  cancelled_at :: "nat \<Rightarrow> bool"
  write_result :: "nat \<Rightarrow> go_error"
  write_latency :: "nat \<Rightarrow> time_Duration"

text \<open>
  What a worker does, in program order.  \<open>Record\<close> is a call that writes the
  aggregate; a \<open>SendMessage\<close> recording is one call of \<open>sendMessage\<close>, the write on
  the connection included.
\<close>

datatype event =
    AcquireSlot
  | NewClient
  | Record recording
  | WriteClose go_int string
  | ReleaseSlot

text \<open>
  The loop of \<open>runConnection\<close> over the remaining indices.  The \<open>select\<close> takes the
  \<open>ctx.Done()\<close> case when the context is cancelled and returns from the function;
  otherwise its \<open>default\<close> case sends.  The flag says whether the function returned
  from inside the loop.
\<close>

fun sendLoop :: "conn_env \<Rightarrow> int \<Rightarrow> nat list \<Rightarrow> bool \<times> event list" where
  "sendLoop env connID [] = (False, [])"
| "sendLoop env connID (i # rest) =
     (if cancelled_at env i then (True, [])
      else (let (returned, evs) = sendLoop env connID rest
            in (returned,
                Record (SendMessage connID (int i) (write_result env i) (write_latency env i))
                  # evs)))"

text \<open>
  \<open>runConnection\<close>: the slot is taken first and given back by the deferred function
  on every return.
\<close>

definition runConnection :: "int \<Rightarrow> TestOptions \<Rightarrow> conn_env \<Rightarrow> event list" where
  "runConnection connID os env =
     [AcquireSlot, NewClient] @
     (case dial env of
        Some e \<Rightarrow> [Record (RecordError (''client_creation_failed_'' @ itoa connID) e)]
      | None \<Rightarrow>
          (let (returned, evs) = sendLoop env connID [0..<nat (sint (Loop os))]
           in if returned then evs else evs @ [WriteClose 1000 ''test completed''])) @
     [ReleaseSlot]"

text \<open>
  The workers run concurrently.  A schedule names, step by step, the worker whose next
  event happens; what is left when the schedule ends runs to completion, since \<open>Run\<close>
  waits for every worker.
\<close>

fun interleave :: "nat list \<Rightarrow> 'a list list \<Rightarrow> 'a list" where
  "interleave [] qs = concat qs"
| "interleave (w # ws) qs =
     (if w < length qs
      then (case qs ! w of
              [] \<Rightarrow> interleave ws qs
            | x # xs \<Rightarrow> x # interleave ws (qs[w := xs]))
      else interleave ws qs)"

fun recording_of :: "event \<Rightarrow> recording option" where
  "recording_of (Record x) = Some x"
| "recording_of _ = None"

text \<open>
  The environment of a run: \<open>time.ParseDuration\<close> (a library function, \<open>Inl\<close> its
  error message), the two readings of the clock, each worker's environment and the
  schedule.
\<close>

record run_env =
  ParseDuration :: "string \<Rightarrow> string + time_Duration"
  now_start :: time_Time
  now_end :: time_Time
  conn :: "nat \<Rightarrow> conn_env"
  schedule :: "nat list"

datatype run_event = StartCollectMetrics | StartConnection int | PrintResults

record run_result =
  returned :: go_error
  final :: LoadTest
  launched :: "run_event list"
  printed :: "Report option"

text \<open>
  \<open>Run\<close>.  \<open>make(chan struct{}, n)\<close> panics for a negative \<open>n\<close>.  After the
  \<open>select\<close> the context is cancelled, by \<open>lt.cancel()\<close> or by whoever cancelled it
  before the timer fired.
\<close>

definition Run :: "run_env \<Rightarrow> LoadTest \<Rightarrow> go_panic + run_result" where
  "Run env lt =
     (case ParseDuration env (Duration (opts lt)) of
        Inl e \<Rightarrow>
          Inr \<lparr>returned = Some (''invalid duration format: '' @ e), final = lt,
               launched = [], printed = None\<rparr>
      | Inr duration \<Rightarrow>
          (let lt1 = lt\<lparr>results := (results lt)\<lparr>StartTime := now_start env\<rparr>\<rparr>
           in if sint (Connections (opts lt)) < 0 then Inl MakechanSizeOutOfRange
              else
                (let n = nat (sint (Connections (opts lt)));
                     workers = map (\<lambda>i. runConnection (int i) (opts lt) (conn env i)) [0..<n];
                     recs = List.map_filter recording_of (interleave (schedule env) workers)
                 in case record_all (opts lt) recs (results lt1) of
                      Inl p \<Rightarrow> Inl p
                    | Inr r \<Rightarrow>
                        (let lt2 = lt1\<lparr>results := r\<lparr>EndTime := now_end env\<rparr>, ctxDone := True\<rparr>
                         in Inr \<lparr>returned = None, final = lt2,
                                 launched = StartCollectMetrics # map (\<lambda>i. StartConnection (int i)) [0..<n]
                                              @ [PrintResults],
                                 printed = Some (printResults lt2)\<rparr>))))"

text \<open>The event of the send in iteration \<open>i\<close> of a worker.\<close>

definition send_event :: "conn_env \<Rightarrow> int \<Rightarrow> nat \<Rightarrow> event" where
  "send_event env connID i =
     Record (SendMessage connID (int i) (write_result env i) (write_latency env i))"

subsection \<open>The critical sections, statement by statement\<close>

text \<open>
  The statements between \<open>mu.Lock()\<close> and \<open>mu.Unlock()\<close> in \<open>sendMessage\<close>,
  \<open>recordError\<close> (called with a non-nil error) and \<open>OnMessage\<close>, one constructor for
  each; \<open>CountCategory\<close> is the block that classifies the error and updates its
  category.
\<close>

datatype instr =
    IncTotalRequests
  | IncSuccessfulReqs
  | IncFailedReqs
  | AddTotalLatency time_Duration
  | AppendLatency time_Duration
  | UpdatePeak time_Duration
  | AddBytesSent nat
  | IncErrorCount string
  | CountCategory string
  | AddBytesReceived nat

fun exec_instr :: "instr \<Rightarrow> TestResults \<Rightarrow> TestResults" where
  "exec_instr IncTotalRequests r = r\<lparr>TotalRequests := TotalRequests r + 1\<rparr>"
| "exec_instr IncSuccessfulReqs r = r\<lparr>SuccessfulReqs := SuccessfulReqs r + 1\<rparr>"
| "exec_instr IncFailedReqs r = r\<lparr>FailedReqs := FailedReqs r + 1\<rparr>"
| "exec_instr (AddTotalLatency d) r = r\<lparr>TotalLatency := TotalLatency r + d\<rparr>"
| "exec_instr (AppendLatency d) r = r\<lparr>Latencies := Latencies r @ [d]\<rparr>"
| "exec_instr (UpdatePeak d) r =
     (if sint (PeakResponseTime r) < sint d then r\<lparr>PeakResponseTime := d\<rparr> else r)"
| "exec_instr (AddBytesSent n) r = r\<lparr>BytesSent := BytesSent r + word_of_nat n\<rparr>"
| "exec_instr (IncErrorCount t) r = r\<lparr>ErrorCounts := map_incr (ErrorCounts r) t\<rparr>"
| "exec_instr (CountCategory msg) r =
     (case ErrorCategories r (categorizeError (Some msg)) of
        None \<Rightarrow> r
      | Some info \<Rightarrow>
          r\<lparr>ErrorCategories := (ErrorCategories r)(categorizeError (Some msg) \<mapsto> bump_info msg info)\<rparr>)"
| "exec_instr (AddBytesReceived n) r = r\<lparr>BytesReceived := BytesReceived r + word_of_nat n\<rparr>"

definition recordError_section :: "string \<Rightarrow> string \<Rightarrow> instr list" where
  "recordError_section errorType msg =
     [IncTotalRequests, IncFailedReqs, IncErrorCount errorType, CountCategory msg]"

fun critical_section :: "TestOptions \<Rightarrow> recording \<Rightarrow> instr list" where
  "critical_section os (SendMessage connID msgID None latency) =
     [IncTotalRequests, IncSuccessfulReqs, AddTotalLatency latency, AppendLatency latency,
      UpdatePeak latency, AddBytesSent (length (Message os))]"
| "critical_section os (SendMessage connID msgID (Some e) latency) =
     recordError_section (''send_failed_'' @ itoa connID @ ''_'' @ itoa msgID) e"
| "critical_section os (RecordError errorType msg) = recordError_section errorType msg"
| "critical_section os (Received n) = [AddBytesReceived n]"

text \<open>
  Goroutines that share the aggregate.  \<open>holder\<close> is the goroutine inside the
  critical section, if any, with the statements it has yet to execute; \<open>waiting\<close>
  gives every goroutine the recordings it has yet to begin.  A step of goroutine \<open>t\<close>
  takes the free lock for its next recording, or executes its next statement inside the
  section, or releases the lock at the end of the section; a goroutine that finds the
  lock held by another does not move.  Readers take \<open>mu.RLock()\<close>, which succeeds
  only while no writer holds the lock: they observe the states with \<open>holder = None\<close>.
\<close>

record sys =
  agg :: TestResults
  holder :: "(nat \<times> instr list) option"
  waiting :: "nat \<Rightarrow> recording list"

definition step :: "TestOptions \<Rightarrow> nat \<Rightarrow> sys \<Rightarrow> sys" where
  "step os t s =
     (case holder s of
        None \<Rightarrow>
          (case waiting s t of
             [] \<Rightarrow> s
           | x # xs \<Rightarrow> s\<lparr>holder := Some (t, critical_section os x),
                          waiting := (waiting s)(t := xs)\<rparr>)
      | Some (h, is) \<Rightarrow>
          if h \<noteq> t then s
          else (case is of
                  [] \<Rightarrow> s\<lparr>holder := None\<rparr>
                | i # rest \<Rightarrow> s\<lparr>agg := exec_instr i (agg s), holder := Some (h, rest)\<rparr>))"

fun run_schedule :: "TestOptions \<Rightarrow> nat list \<Rightarrow> sys \<Rightarrow> sys" where
  "run_schedule os [] s = s"
| "run_schedule os (t # ts) s = run_schedule os ts (step os t s)"

definition initial_sys :: "(nat \<Rightarrow> recording list) \<Rightarrow> sys" where
  "initial_sys w = \<lparr>agg = newTestResults, holder = None, waiting = w\<rparr>"

text \<open>
  The recordings \<open>xs\<close> whose critical sections have been entered so far, in that
  order, account for the aggregate: with the lock free it is the result of applying
  them one after the other; with the lock held, the last one is under way.
\<close>

definition serial :: "TestOptions \<Rightarrow> sys \<Rightarrow> recording list \<Rightarrow> bool" where
  "serial os s xs =
     (case holder s of
        None \<Rightarrow> record_all os xs newTestResults = Inr (agg s)
      | Some (t, is) \<Rightarrow>
          (\<exists>ys x r dn. xs = ys @ [x] \<and> record_all os ys newTestResults = Inr r
              \<and> critical_section os x = dn @ is \<and> agg s = fold exec_instr dn r))"

subsection \<open>Sample runs\<close>

text \<open>
  A stand-in for \<open>time.ParseDuration\<close> that agrees with it on the two strings used
  below, \<open>10s\<close> and \<open>invalid\<close>.
\<close>

definition sample_ParseDuration :: "string \<Rightarrow> string + time_Duration" where
  "sample_ParseDuration s =
     (if s = ''10s'' then Inr 10000000000
      else Inl (''time: invalid duration '' @ [CHR 0x22] @ s @ [CHR 0x22]))"

definition sample_options :: "string \<Rightarrow> go_int \<Rightarrow> go_int \<Rightarrow> TestOptions" where
  "sample_options d c l =
     \<lparr>URL = ''ws://localhost:8080/ws'', Duration = d, Connections = c,
      Message = ''Hello, WebSocket!'', Loop = l\<rparr>"

text \<open>
  A worker environment: the result \<open>d\<close> of opening the connection, the first
  iteration \<open>c\<close> at which the context is seen cancelled, the result \<open>w\<close> of every
  write, and the latency measured on connection \<open>i\<close>.
\<close>

definition sample_conn ::
  "go_error \<Rightarrow> nat \<Rightarrow> go_error \<Rightarrow> time_Duration list \<Rightarrow> nat \<Rightarrow> conn_env" where
  "sample_conn d c w lats i =
     \<lparr>dial = d, cancelled_at = (\<lambda>k. c \<le> k), write_result = (\<lambda>k. w),
      write_latency = (\<lambda>k. if i < length lats then lats ! i else 0)\<rparr>"

definition sample_env :: "go_error \<Rightarrow> nat \<Rightarrow> go_error \<Rightarrow> time_Duration list \<Rightarrow> run_env" where
  "sample_env d c w lats =
     \<lparr>ParseDuration = sample_ParseDuration, now_start = 1000, now_end = 10000001000,
      conn = sample_conn d c w lats, schedule = []\<rparr>"

definition sample_waiting :: "nat \<Rightarrow> recording list" where
  "sample_waiting t =
     (if t = 0 then [SendMessage 0 0 None 5]
      else if t = 1 then [RecordError ''client_creation_failed_1'' ''connection refused'']
      else [])"

section \<open>Properties of the classifier\<close>

lemmas ErrorCategory_defs =
  ErrorCategoryTimeout_def ErrorCategoryConnectionRefused_def
  ErrorCategoryUnexpectedResponse_def ErrorCategoryInvalidData_def
  ErrorCategoryAuthFailure_def ErrorCategoryNetworkError_def
  ErrorCategoryProtocolError_def ErrorCategoryResourceExhaustion_def
  ErrorCategoryUnknown_def

lemma first_match_wins:
  "i < length rs \<Longrightarrow> rule_matches m (rs ! i) \<Longrightarrow>
   (\<And>j. j < i \<Longrightarrow> \<not> rule_matches m (rs ! j)) \<Longrightarrow>
   first_match rs m = snd (rs ! i)"
proof (induction rs arbitrary: i)
  case Nil
  then show ?case by simp
next
  case (Cons r rs)
  show ?case
  proof (cases i)
    case 0
    with Cons.prems show ?thesis by simp
  next
    case (Suc k)
    have nomatch: "\<not> rule_matches m r"
      using Cons.prems(3) [of 0] Suc by simp
    have "first_match rs m = snd (rs ! k)"
    proof (rule Cons.IH)
      show "k < length rs" using Cons.prems(1) Suc by simp
      show "rule_matches m (rs ! k)" using Cons.prems(2) Suc by simp
      show "\<not> rule_matches m (rs ! j)" if "j < k" for j
        using Cons.prems(3) [of "Suc j"] that Suc by simp
    qed
    with nomatch Suc show ?thesis by simp
  qed
qed

lemma first_match_none:
  "(\<And>r. r \<in> set rs \<Longrightarrow> \<not> rule_matches m r) \<Longrightarrow> first_match rs m = ErrorCategoryUnknown"
  by (induction rs) simp_all

lemma categorizeError_table:
  "categorizeError (Some msg) = first_match classifier_rules (ToLower msg)"
  by (simp add: categorizeError_def classifier_rules_def rule_matches_def Let_def)

lemma categorizeError_in_categories:
  "categorizeError err \<in> set all_categories"
  by (cases err) (simp_all add: categorizeError_def all_categories_def Let_def)

text \<open>
  A block of ASCII bytes in a message is decoded byte by byte wherever it stands,
  since no multi-byte sequence reaches into it: it appears in the lower-cased message
  with its letters lowered.
\<close>

lemma DecodeRune_ascii:
  "isASCII c \<Longrightarrow> DecodeRune (c # cs) = (of_char c, 1)"
  by (simp add: DecodeRune.simps isASCII_def)

lemma EncodeRune_lower_ascii:
  "isASCII c \<Longrightarrow> EncodeRune (unicode_ToLower (of_char c)) = [toLowerByte c]"
  by (auto simp: isASCII_def EncodeRune_def unicode_ToLower_def toLowerByte_def)

lemma ToLower_ascii_Cons:
  "isASCII c \<Longrightarrow> ToLower (c # cs) = toLowerByte c # ToLower cs"
  by (simp add: ToLower.simps DecodeRune_ascii EncodeRune_lower_ascii)

lemma ToLower_ascii_append:
  "list_all isASCII a \<Longrightarrow> ToLower (a @ ss) = map toLowerByte a @ ToLower ss"
  by (induction a) (simp_all add: ToLower_ascii_Cons)

lemma DecodeRune_width:
  assumes "DecodeRune (c # cs) = (r, w)"
  shows "1 \<le> w \<and> w - 1 \<le> length cs \<and> (\<forall>i < w - 1. \<not> isASCII (cs ! i))"
proof -
  have a: "accepts b c' \<Longrightarrow> \<not> isASCII c'" for b c'
    by (auto simp: accepts_def accept_lo_def isASCII_def split: if_splits)
  have l: "locb c' \<Longrightarrow> \<not> isASCII c'" for c'
    by (auto simp: locb_def isASCII_def)
  show ?thesis
    using assms a l
    by (auto simp: DecodeRune.simps Let_def less_Suc_eq nth_Cons
             split: if_splits list.splits nat.splits)
qed

lemma ToLower_keeps_ascii_block:
  assumes "list_all isASCII a"
  shows "\<exists>X Y. ToLower (ps @ a @ ss) = X @ map toLowerByte a @ Y"
proof (induction "length ps" arbitrary: ps rule: less_induct)
  case less
  show ?case
  proof (cases ps)
    case Nil
    then show ?thesis
      using ToLower_ascii_append [OF assms, of ss] by (metis append_Nil)
  next
    case (Cons c ps')
    show ?thesis
    proof (cases a)
      case Nil
      then show ?thesis by (metis append_Nil2 list.simps(8))
    next
      case (Cons a0 a')
      obtain r w where d: "DecodeRune (c # ps' @ a @ ss) = (r, w)"
        by (cases "DecodeRune (c # ps' @ a @ ss)")
      from DecodeRune_width [OF d]
      have w1: "1 \<le> w" and na: "\<forall>i < w - 1. \<not> isASCII ((ps' @ a @ ss) ! i)" by auto
      have "w - 1 \<le> length ps'"
      proof (rule ccontr)
        assume "\<not> w - 1 \<le> length ps'"
        then have "length ps' < w - 1" by simp
        with na have "\<not> isASCII ((ps' @ a @ ss) ! length ps')" by blast
        moreover have "(ps' @ a @ ss) ! length ps' = a0" using Cons by simp
        moreover have "isASCII a0" using assms Cons by simp
        ultimately show False by simp
      qed
      then have dr: "drop (w - 1) (ps' @ a @ ss) = drop (w - 1) ps' @ a @ ss"
        by simp
      have "length (drop (w - 1) ps') < length ps"
        using \<open>ps = c # ps'\<close> by simp
      from less [OF this] obtain X Y where
        "ToLower (drop (w - 1) ps' @ a @ ss) = X @ map toLowerByte a @ Y" by blast
      then have "ToLower (ps @ a @ ss)
          = (EncodeRune (unicode_ToLower r) @ X) @ map toLowerByte a @ Y"
        using \<open>ps = c # ps'\<close> d dr by (simp add: ToLower.simps)
      then show ?thesis by blast
    qed
  qed
qed

lemma Contains_ToLower_ascii:
  assumes "list_all isASCII t" "Contains s t"
  shows "Contains (ToLower s) (map toLowerByte t)"
proof -
  from assms(2) obtain ps ss where "s = ps @ t @ ss"
    unfolding Contains_def sublist_def by blast
  then show ?thesis
    using ToLower_keeps_ascii_block [OF assms(1), of ps ss]
    unfolding Contains_def sublist_def by auto
qed

lemma toLowerByte_ascii_image:
  "isASCII (toLowerByte c) \<Longrightarrow> isASCII c"
  by (auto simp: toLowerByte_def isASCII_def split: if_splits)

lemma lowered_ascii:
  "map toLowerByte t = p \<Longrightarrow> list_all isASCII p \<Longrightarrow> list_all isASCII t"
  by (induction t arbitrary: p) (auto simp: toLowerByte_ascii_image)

lemma char_of_numeral_eval:
  "char_of (105::nat) = CHR ''i''" "char_of (107::nat) = CHR ''k''"
  "char_of (239::nat) = CHR 0xEF" "char_of (191::nat) = CHR 0xBF" "char_of (189::nat) = CHR 0xBD"
  by code_simp+

lemma unicode_ToLower_into_ascii:
  "unicode_ToLower 304 = 105" "unicode_ToLower 8490 = 107"
  by (simp_all add: unicode_ToLower_def lower_case_ranges_def)

lemma ToLower_dotted_I:
  "ToLower (CHR 0xC4 # CHR 0xB0 # cs) = CHR ''i'' # ToLower cs"
  by (simp add: ToLower.simps DecodeRune.simps accepts_def accept_lo_def accept_hi_def
        unicode_ToLower_into_ascii EncodeRune_def char_of_numeral_eval)

lemma ToLower_kelvin:
  "ToLower (CHR 0xE2 # CHR 0x84 # CHR 0xAA # cs) = CHR ''k'' # ToLower cs"
  by (simp add: ToLower.simps DecodeRune.simps accepts_def accept_lo_def accept_hi_def locb_def
        unicode_ToLower_into_ascii EncodeRune_def char_of_numeral_eval)

lemma ToLower_invalid_byte:
  "ToLower (CHR 0xFF # cs) = CHR 0xEF # CHR 0xBF # CHR 0xBD # ToLower cs"
  by (simp add: ToLower.simps DecodeRune.simps unicode_ToLower_def lower_case_ranges_def
        RuneError_def EncodeRune_def char_of_numeral_eval)

lemma ToLower_TIMEOUT_dotted:
  "ToLower (''T'' @ [CHR 0xC4, CHR 0xB0] @ ''MEOUT'') = ''timeout''"
proof -
  have "ToLower ''MEOUT'' = ''meout''" by code_simp
  moreover have "ToLower (CHR ''T'' # cs) = CHR ''t'' # ToLower cs" for cs
    using ToLower_ascii_Cons [of "CHR ''T''" cs] by (simp add: isASCII_def toLowerByte_def) code_simp
  ultimately show ?thesis by (simp add: ToLower_dotted_I)
qed

text \<open>
  C5.  \<open>categorizeError\<close> is a total function of the error message: on every
  non-nil error it returns exactly one of the nine category names, namely the category
  of the first rule, in the order timeout, connection-refused, network-error,
  auth-failure, protocol-error, resource-exhaustion, unexpected-response, invalid-data,
  that has a substring occurring in the lower-cased message, and \<open>unknown\<close> when no
  rule matches.  In particular a message whose lower-cased form contains "timeout" is
  classified as timeout whatever else it contains, and so is every message that
  contains both "timeout" and "invalid", each in any mixture of upper and lower case.
\<close>

theorem categorizeError_priority:
  "categorizeError (Some msg) = first_match classifier_rules (ToLower msg)
   \<and> map snd classifier_rules @ [ErrorCategoryUnknown] =
       [''timeout'', ''connection_refused'', ''network_error'', ''authentication_failure'',
        ''protocol_error'', ''resource_exhaustion'', ''unexpected_response'',
        ''invalid_data'', ''unknown'']
   \<and> categorizeError (Some msg) \<in> set (map snd classifier_rules @ [ErrorCategoryUnknown])
   \<and> distinct (map snd classifier_rules @ [ErrorCategoryUnknown])
   \<and> (\<forall>i. i < length classifier_rules
          \<and> rule_matches (ToLower msg) (classifier_rules ! i)
          \<and> (\<forall>j. j < i \<longrightarrow> \<not> rule_matches (ToLower msg) (classifier_rules ! j))
        \<longrightarrow> categorizeError (Some msg) = snd (classifier_rules ! i))
   \<and> ((\<forall>i. i < length classifier_rules
            \<longrightarrow> \<not> rule_matches (ToLower msg) (classifier_rules ! i))
        \<longrightarrow> categorizeError (Some msg) = ErrorCategoryUnknown)
   \<and> (Contains (ToLower msg) ''timeout'' \<longrightarrow>
        categorizeError (Some msg) = ErrorCategoryTimeout)
   \<and> (\<forall>t v. map toLowerByte t = ''timeout'' \<and> Contains msg t
            \<and> map toLowerByte v = ''invalid'' \<and> Contains msg v
        \<longrightarrow> Contains (ToLower msg) ''timeout'' \<and> Contains (ToLower msg) ''invalid''
            \<and> categorizeError (Some msg) = ErrorCategoryTimeout)"
  (is "?P1 \<and> ?P2 \<and> ?P3 \<and> ?P4 \<and> ?P5 \<and> ?P6 \<and> ?P7 \<and> ?P8")
proof -
  let ?m = "ToLower msg"
  have table: "categorizeError (Some msg) = first_match classifier_rules ?m"
    by (rule categorizeError_table)
  have names: "map snd classifier_rules @ [ErrorCategoryUnknown] =
       [''timeout'', ''connection_refused'', ''network_error'', ''authentication_failure'',
        ''protocol_error'', ''resource_exhaustion'', ''unexpected_response'',
        ''invalid_data'', ''unknown'']"
    by (simp add: classifier_rules_def ErrorCategory_defs)
  have mem: "categorizeError (Some msg) \<in> set (map snd classifier_rules @ [ErrorCategoryUnknown])"
    using categorizeError_in_categories [of "Some msg"]
    by (auto simp: all_categories_def classifier_rules_def)
  have dist: "distinct (map snd classifier_rules @ [ErrorCategoryUnknown])"
    unfolding names by simp
  have wins: "categorizeError (Some msg) = snd (classifier_rules ! i)"
    if "i < length classifier_rules" "rule_matches ?m (classifier_rules ! i)"
       "\<forall>j. j < i \<longrightarrow> \<not> rule_matches ?m (classifier_rules ! j)" for i
    unfolding table using that by (intro first_match_wins) auto
  have none: "categorizeError (Some msg) = ErrorCategoryUnknown"
    if "\<forall>i. i < length classifier_rules \<longrightarrow> \<not> rule_matches ?m (classifier_rules ! i)"
    unfolding table using that by (intro first_match_none) (auto simp: in_set_conv_nth)
  have lowered: "categorizeError (Some msg) = ErrorCategoryTimeout"
    if "Contains ?m ''timeout''"
    using that by (simp add: categorizeError_def)
  have ascii: "list_all isASCII ''timeout''" "list_all isASCII ''invalid''"
    by (simp_all add: isASCII_def)
  have both: "Contains ?m ''timeout'' \<and> Contains ?m ''invalid''
            \<and> categorizeError (Some msg) = ErrorCategoryTimeout"
    if t: "map toLowerByte t = ''timeout''" "Contains msg t"
      and v: "map toLowerByte v = ''invalid''" "Contains msg v" for t v
  proof -
    have "Contains ?m (map toLowerByte t)"
      using Contains_ToLower_ascii [OF lowered_ascii [OF t(1) ascii(1)] t(2)] .
    then have ct: "Contains ?m ''timeout''" using t(1) by simp
    have "Contains ?m (map toLowerByte v)"
      using Contains_ToLower_ascii [OF lowered_ascii [OF v(1) ascii(2)] v(2)] .
    then have cv: "Contains ?m ''invalid''" using v(1) by simp
    from ct cv lowered [OF ct] show ?thesis by blast
  qed
  have p5: ?P5 using wins by blast
  have p6: ?P6 using none by blast
  have p7: ?P7 using lowered by blast
  have p8: ?P8 by (intro allI impI, elim conjE, rule both, assumption+)
  from table names mem dist p5 p6 p7 p8 show ?thesis by (intro conjI)
qed

theorem categorizeError_priority_witness:
  "map toLowerByte ''TIMEOUT'' = ''timeout'' \<and> Contains ''Invalid frame: read TIMEOUT'' ''TIMEOUT''
   \<and> map toLowerByte ''Invalid'' = ''invalid'' \<and> Contains ''Invalid frame: read TIMEOUT'' ''Invalid''
   \<and> categorizeError (Some ''Invalid frame: read TIMEOUT'') = ''timeout''
   \<and> Contains (ToLower (''T'' @ [CHR 0xC4, CHR 0xB0] @ ''MEOUT'')) ''timeout''
   \<and> categorizeError (Some (''T'' @ [CHR 0xC4, CHR 0xB0] @ ''MEOUT'')) = ''timeout''
   \<and> rule_matches (ToLower ''Malformed JSON'') (classifier_rules ! 7)
   \<and> list_all (\<lambda>j. \<not> rule_matches (ToLower ''Malformed JSON'') (classifier_rules ! j)) [0..<7]
   \<and> categorizeError (Some ''Malformed JSON'') = ''invalid_data''
   \<and> list_all (\<lambda>i. \<not> rule_matches (ToLower ''EOF'') (classifier_rules ! i))
        [0..<length classifier_rules]
   \<and> categorizeError (Some ''EOF'') = ''unknown''"
proof -
  have l1: "map toLowerByte ''TIMEOUT'' = ''timeout''"
    and l2: "map toLowerByte ''Invalid'' = ''invalid''"
    by code_simp+
  have c1: "Contains ''Invalid frame: read TIMEOUT'' ''TIMEOUT''"
    and c2: "Contains ''Invalid frame: read TIMEOUT'' ''Invalid''"
    unfolding Contains_def by code_simp+
  note inst1 = categorizeError_priority [of "''Invalid frame: read TIMEOUT''"]
  note both1 = inst1 [THEN conjunct2, THEN conjunct2, THEN conjunct2, THEN conjunct2,
      THEN conjunct2, THEN conjunct2, THEN conjunct2, rule_format,
      of "''TIMEOUT''" "''Invalid''"]
  have "categorizeError (Some ''Invalid frame: read TIMEOUT'') = ErrorCategoryTimeout"
    using both1 l1 l2 c1 c2 by blast
  then have r1: "categorizeError (Some ''Invalid frame: read TIMEOUT'') = ''timeout''"
    by (simp add: ErrorCategoryTimeout_def)
  have c3: "Contains (ToLower (''T'' @ [CHR 0xC4, CHR 0xB0] @ ''MEOUT'')) ''timeout''"
    unfolding ToLower_TIMEOUT_dotted Contains_def by simp
  note inst0 = categorizeError_priority [of "''T'' @ [CHR 0xC4, CHR 0xB0] @ ''MEOUT''"]
  note lowered0 = inst0 [THEN conjunct2, THEN conjunct2, THEN conjunct2, THEN conjunct2,
      THEN conjunct2, THEN conjunct2, THEN conjunct1, rule_format]
  have "categorizeError (Some (''T'' @ [CHR 0xC4, CHR 0xB0] @ ''MEOUT'')) = ErrorCategoryTimeout"
    using lowered0 c3 by blast
  then have r0: "categorizeError (Some (''T'' @ [CHR 0xC4, CHR 0xB0] @ ''MEOUT'')) = ''timeout''"
    by (simp only: ErrorCategoryTimeout_def)
  have m7: "rule_matches (ToLower ''Malformed JSON'') (classifier_rules ! 7)"
    by code_simp
  have la7: "list_all (\<lambda>j. \<not> rule_matches (ToLower ''Malformed JSON'') (classifier_rules ! j))
          [0..<7]"
    by code_simp
  then have m_less:
    "\<forall>j. j < 7 \<longrightarrow> \<not> rule_matches (ToLower ''Malformed JSON'') (classifier_rules ! j)"
    by (simp add: list_all_iff)
  have len: "(7::nat) < length classifier_rules"
    by (simp add: classifier_rules_def)
  have s7: "snd (classifier_rules ! 7) = ''invalid_data''"
    by (simp add: classifier_rules_def ErrorCategoryInvalidData_def)
  note inst2 = categorizeError_priority [of "''Malformed JSON''"]
  note wins2 = inst2 [THEN conjunct2, THEN conjunct2, THEN conjunct2, THEN conjunct2,
      THEN conjunct1, rule_format, of 7]
  have "categorizeError (Some ''Malformed JSON'') = snd (classifier_rules ! 7)"
    using wins2 len m7 m_less by blast
  then have r2: "categorizeError (Some ''Malformed JSON'') = ''invalid_data''"
    by (simp only: s7)
  have laE: "list_all (\<lambda>i. \<not> rule_matches (ToLower ''EOF'') (classifier_rules ! i))
          [0..<length classifier_rules]"
    by code_simp
  then have e_none: "\<forall>i. i < length classifier_rules
          \<longrightarrow> \<not> rule_matches (ToLower ''EOF'') (classifier_rules ! i)"
    by (simp add: list_all_iff)
  note inst3 = categorizeError_priority [of "''EOF''"]
  note none3 = inst3 [THEN conjunct2, THEN conjunct2, THEN conjunct2, THEN conjunct2,
      THEN conjunct2, THEN conjunct1, rule_format]
  have "categorizeError (Some ''EOF'') = ErrorCategoryUnknown"
    using none3 e_none by blast
  then have r3: "categorizeError (Some ''EOF'') = ''unknown''"
    by (simp only: ErrorCategoryUnknown_def)
  from l1 l2 c1 c2 r1 c3 r0 m7 la7 r2 laE r3 show ?thesis by (intro conjI)
qed

section \<open>Properties of the recording operations\<close>

lemma sint_word_of_nat_64:
  assumes "n < 2^63"
  shows "sint (word_of_nat n :: 64 word) = int n"
proof -
  have "sint (word_of_nat n :: 64 word) = signed_take_bit 63 (int n)"
    by (simp add: sint_uint signed_take_bit_eq_iff_take_bit_eq take_bit_of_nat unsigned_of_nat)
  also have "\<dots> = int n"
    using assms by (intro signed_take_bit_int_eq_self) auto
  finally show ?thesis .
qed

lemma recordError_Some:
  "recordError errorType (Some msg) r =
     Inr (r\<lparr>TotalRequests := TotalRequests r + 1,
            FailedReqs := FailedReqs r + 1,
            ErrorCounts := map_incr (ErrorCounts r) errorType,
            ErrorCategories :=
              (case ErrorCategories r (categorizeError (Some msg)) of
                 None \<Rightarrow> ErrorCategories r
               | Some info \<Rightarrow> (ErrorCategories r)(categorizeError (Some msg) \<mapsto>
                   info\<lparr>Count := Count info + 1,
                        Examples := (if length (Examples info) < 3
                                     then Examples info @ [msg] else Examples info)\<rparr>))\<rparr>)"
  by (simp add: recordError_def Let_def split: option.splits)

lemma sendMessage_None:
  "sendMessage os connID msgID None latency r =
     Inr (r\<lparr>TotalRequests := TotalRequests r + 1,
            SuccessfulReqs := SuccessfulReqs r + 1,
            TotalLatency := TotalLatency r + latency,
            Latencies := Latencies r @ [latency],
            PeakResponseTime :=
              (if sint (PeakResponseTime r) < sint latency then latency else PeakResponseTime r),
            BytesSent := BytesSent r + word_of_nat (length (Message os))\<rparr>)"
  by (simp add: sendMessage_def Let_def)

lemma sendMessage_Some:
  "sendMessage os connID msgID (Some e) latency r =
     recordError (''send_failed_'' @ itoa connID @ ''_'' @ itoa msgID) (Some e) r"
  by (simp add: sendMessage_def)

lemma record_op_effect:
  "\<exists>r'. record_op os x r = Inr r'
     \<and> TotalRequests r' = TotalRequests r + (if is_attempt x then 1 else 0)
     \<and> SuccessfulReqs r' =
         SuccessfulReqs r + (if is_attempt x \<and> failure_message x = None then 1 else 0)
     \<and> FailedReqs r' = FailedReqs r + (if failure_message x = None then 0 else 1)
     \<and> (\<forall>c. ErrorCategories r' c =
           (case failure_message x of
              None \<Rightarrow> ErrorCategories r c
            | Some m \<Rightarrow>
                if categorizeError (Some m) = c
                then map_option (bump_info m) (ErrorCategories r c)
                else ErrorCategories r c))"
proof (cases x)
  case (SendMessage connID msgID werr latency)
  then show ?thesis
    by (cases werr)
       (auto simp: sendMessage_None sendMessage_Some recordError_Some bump_info_def
             split: option.splits)
next
  case (RecordError errorType msg)
  then show ?thesis
    by (auto simp: recordError_Some bump_info_def split: option.splits)
next
  case (Received n)
  then show ?thesis by (simp add: OnMessage_def)
qed

lemma record_all_counters:
  "\<exists>r'. record_all os xs r = Inr r'
     \<and> TotalRequests r' = TotalRequests r + word_of_nat (attempts xs)
     \<and> SuccessfulReqs r' + FailedReqs r' =
         SuccessfulReqs r + FailedReqs r + word_of_nat (attempts xs)"
proof (induction xs arbitrary: r)
  case Nil
  then show ?case by (simp add: attempts_def)
next
  case (Cons x xs)
  obtain r1 where r1: "record_op os x r = Inr r1"
    and t1: "TotalRequests r1 = TotalRequests r + (if is_attempt x then 1 else 0)"
    and s1: "SuccessfulReqs r1 =
         SuccessfulReqs r + (if is_attempt x \<and> failure_message x = None then 1 else 0)"
    and f1: "FailedReqs r1 = FailedReqs r + (if failure_message x = None then 0 else 1)"
    using record_op_effect [of os x r] by blast
  have fa: "failure_message x \<noteq> None \<Longrightarrow> is_attempt x"
    by (cases x) auto
  obtain r' where r': "record_all os xs r1 = Inr r'"
    and t': "TotalRequests r' = TotalRequests r1 + word_of_nat (attempts xs)"
    and s': "SuccessfulReqs r' + FailedReqs r' =
         SuccessfulReqs r1 + FailedReqs r1 + word_of_nat (attempts xs)"
    using Cons.IH [of r1] by blast
  have "record_all os (x # xs) r = Inr r'"
    using r1 r' by simp
  moreover have "TotalRequests r' = TotalRequests r + word_of_nat (attempts (x # xs))"
    using t' t1 by (simp add: attempts_def)
  moreover have "SuccessfulReqs r' + FailedReqs r' =
         SuccessfulReqs r + FailedReqs r + word_of_nat (attempts (x # xs))"
    using s' s1 f1 fa by (auto simp: attempts_def)
  ultimately show ?case by blast
qed


lemma classified_Nil: "classified c [] = []"
  by (simp add: classified_def failure_messages_def)

lemma classified_Cons:
  "classified c (x # xs) =
     (case failure_message x of
        None \<Rightarrow> classified c xs
      | Some m \<Rightarrow> if categorizeError (Some m) = c then m # classified c xs else classified c xs)"
  by (simp add: classified_def failure_messages_def map_filter_simps split: option.splits)

lemma record_all_examples:
  "ErrorCategories r c = Some info \<Longrightarrow>
   \<exists>r' info'. record_all os xs r = Inr r' \<and> ErrorCategories r' c = Some info'
     \<and> Examples info' =
         Examples info @ take (3 - length (Examples info)) (classified c xs)
     \<and> Count info' = Count info + word_of_nat (length (classified c xs))
     \<and> Description info' = Description info"
proof (induction xs arbitrary: r info)
  case Nil
  then show ?case by (simp add: classified_Nil)
next
  case (Cons x xs)
  obtain r1 where r1: "record_op os x r = Inr r1"
    and c1: "ErrorCategories r1 c =
           (case failure_message x of
              None \<Rightarrow> ErrorCategories r c
            | Some m \<Rightarrow>
                if categorizeError (Some m) = c
                then map_option (bump_info m) (ErrorCategories r c)
                else ErrorCategories r c)"
    using record_op_effect [of os x r] by blast
  show ?case
  proof (cases "\<exists>m. failure_message x = Some m \<and> categorizeError (Some m) = c")
    case True
    then obtain m where m: "failure_message x = Some m" "categorizeError (Some m) = c"
      by blast
    have i1: "ErrorCategories r1 c = Some (bump_info m info)"
      using c1 m Cons.prems by simp
    obtain r' info' where r': "record_all os xs r1 = Inr r'"
      and e': "ErrorCategories r' c = Some info'"
      and x': "Examples info' = Examples (bump_info m info)
                 @ take (3 - length (Examples (bump_info m info))) (classified c xs)"
      and n': "Count info' = Count (bump_info m info) + word_of_nat (length (classified c xs))"
      and d': "Description info' = Description (bump_info m info)"
      using Cons.IH [OF i1] by blast
    have cl: "classified c (x # xs) = m # classified c xs"
      using m by (simp add: classified_Cons)
    have "record_all os (x # xs) r = Inr r'"
      using r1 r' by simp
    moreover have "Examples info' =
         Examples info @ take (3 - length (Examples info)) (classified c (x # xs))"
    proof (cases "length (Examples info) < 3")
      case True
      then obtain k where k: "3 - length (Examples info) = Suc k"
        "3 - Suc (length (Examples info)) = k"
        by (cases "3 - length (Examples info)") auto
      show ?thesis
        using True k by (simp add: x' cl bump_info_def)
    next
      case False
      then show ?thesis by (simp add: x' cl bump_info_def)
    qed
    moreover have "Count info' = Count info + word_of_nat (length (classified c (x # xs)))"
      by (simp add: n' cl bump_info_def)
    moreover have "Description info' = Description info"
      by (simp add: d' bump_info_def)
    ultimately show ?thesis using e' by blast
  next
    case False
    then have i1: "ErrorCategories r1 c = Some info"
      using c1 Cons.prems by (auto split: option.splits)
    have cl: "classified c (x # xs) = classified c xs"
      using False by (auto simp: classified_Cons split: option.splits)
    obtain r' info' where r': "record_all os xs r1 = Inr r'"
      and rest: "ErrorCategories r' c = Some info'"
        "Examples info' = Examples info @ take (3 - length (Examples info)) (classified c xs)"
        "Count info' = Count info + word_of_nat (length (classified c xs))"
        "Description info' = Description info"
      using Cons.IH [OF i1] by blast
    have "record_all os (x # xs) r = Inr r'"
      using r1 r' by simp
    with rest cl show ?thesis by auto
  qed
qed

lemma record_all_dom:
  "\<exists>r'. record_all os xs r = Inr r' \<and> dom (ErrorCategories r') = dom (ErrorCategories r)"
proof (induction xs arbitrary: r)
  case Nil
  then show ?case by simp
next
  case (Cons x xs)
  obtain r1 where r1: "record_op os x r = Inr r1"
    and c1: "\<forall>c. ErrorCategories r1 c =
           (case failure_message x of
              None \<Rightarrow> ErrorCategories r c
            | Some m \<Rightarrow>
                if categorizeError (Some m) = c
                then map_option (bump_info m) (ErrorCategories r c)
                else ErrorCategories r c)"
    using record_op_effect [of os x r] by blast
  have "dom (ErrorCategories r1) = dom (ErrorCategories r)"
    using c1 by (auto simp: dom_def split: option.splits if_splits)
  moreover obtain r' where "record_all os xs r1 = Inr r'"
      "dom (ErrorCategories r') = dom (ErrorCategories r1)"
    using Cons.IH [of r1] by blast
  ultimately show ?case using r1 by auto
qed

lemma dom_initializeErrorCategories:
  "dom initializeErrorCategories = set all_categories"
  by (auto simp: initializeErrorCategories_def all_categories_def)

lemma initializeErrorCategories_Examples:
  "initializeErrorCategories c = Some info \<Longrightarrow> Examples info = [] \<and> Count info = 0"
  by (auto simp: initializeErrorCategories_def newCategory_def split: if_splits)


lemma record_op_critical_section:
  "record_op os x r = Inr (fold exec_instr (critical_section os x) r)"
proof (cases x)
  case (SendMessage connID msgID werr latency)
  then show ?thesis
    by (cases werr)
       (auto simp: sendMessage_None sendMessage_Some recordError_Some recordError_section_def
             bump_info_def split: option.splits)
next
  case (RecordError errorType msg)
  then show ?thesis
    by (auto simp: recordError_Some recordError_section_def bump_info_def split: option.splits)
next
  case (Received n)
  then show ?thesis by (simp add: OnMessage_def)
qed

lemma record_all_snoc:
  "record_all os (xs @ [x]) r =
     (case record_all os xs r of Inl p \<Rightarrow> Inl p | Inr r' \<Rightarrow> record_op os x r')"
  by (induction xs arbitrary: r) (auto split: sum.splits)

lemma serial_step:
  assumes "serial os s xs"
  shows "\<exists>xs'. serial os (step os t s) xs'"
proof (cases "holder s")
  case None
  show ?thesis
  proof (cases "waiting s t")
    case Nil
    with None assms show ?thesis by (auto simp: step_def)
  next
    case (Cons x rest)
    have "serial os (step os t s) (xs @ [x])"
      using None Cons assms by (auto simp: step_def serial_def)
    then show ?thesis by blast
  qed
next
  case (Some p)
  obtain h "is" where p: "p = (h, is)" by (cases p)
  show ?thesis
  proof (cases "h = t")
    case False
    with Some p assms show ?thesis by (auto simp: step_def)
  next
    case True
    from assms Some p obtain ys x r dn where
      xs: "xs = ys @ [x]" and ys: "record_all os ys newTestResults = Inr r"
      and cs: "critical_section os x = dn @ is" and ag: "agg s = fold exec_instr dn r"
      by (auto simp: serial_def)
    show ?thesis
    proof (cases "is")
      case Nil
      have "serial os (step os t s) xs"
        using Some p True Nil xs ys cs ag
        by (simp add: step_def serial_def record_all_snoc record_op_critical_section)
      then show ?thesis by blast
    next
      case (Cons i rest)
      have "critical_section os x = (dn @ [i]) @ rest" using cs Cons by simp
      moreover have "exec_instr i (agg s) = fold exec_instr (dn @ [i]) r" using ag by simp
      ultimately have "serial os (step os t s) xs"
        using Some p True Cons xs ys
        unfolding step_def serial_def by (simp del: append_assoc)
      then show ?thesis by blast
    qed
  qed
qed

lemma serial_run:
  "serial os s xs \<Longrightarrow> \<exists>xs'. serial os (run_schedule os ts s) xs'"
proof (induction ts arbitrary: s xs)
  case Nil
  then show ?case by auto
next
  case (Cons t ts)
  from serial_step [OF Cons.prems] obtain xs' where "serial os (step os t s) xs'" by blast
  from Cons.IH [OF this] show ?case by simp
qed

lemma serial_initial: "serial os (initial_sys w) []"
  by (simp add: serial_def initial_sys_def)

lemma observable_is_serial:
  "holder (run_schedule os ts (initial_sys w)) = None \<Longrightarrow>
   \<exists>xs. record_all os xs newTestResults = Inr (agg (run_schedule os ts (initial_sys w)))"
  using serial_run [OF serial_initial, of os ts w] by (auto simp: serial_def)


text \<open>
  Inside the critical section the counters do disagree: after taking the lock and
  executing the first statement of a successful send the total is \<open>1\<close> and the other
  two counters are still \<open>0\<close>; the lock is held, so no reader sees it.
\<close>

lemma counters_disagree_inside_section:
  "holder (run_schedule (sample_options ''10s'' 2 1) [0, 0] (initial_sys sample_waiting))
     = Some (0, [IncSuccessfulReqs, AddTotalLatency 5, AppendLatency 5, UpdatePeak 5,
                 AddBytesSent 17])
   \<and> TotalRequests (agg (run_schedule (sample_options ''10s'' 2 1) [0, 0]
        (initial_sys sample_waiting))) = 1
   \<and> SuccessfulReqs (agg (run_schedule (sample_options ''10s'' 2 1) [0, 0]
        (initial_sys sample_waiting))) = 0
   \<and> FailedReqs (agg (run_schedule (sample_options ''10s'' 2 1) [0, 0]
        (initial_sys sample_waiting))) = 0"
  by code_simp

text \<open>
  C4.  Every recording operation keeps \<open>TotalRequests = SuccessfulReqs + FailedReqs\<close>:
  one operation raises the total by one and exactly one of the success and failure
  counters by one.  Starting from the aggregate of \<open>NewLoadTest\<close>, after every prefix
  of any sequence of operations the invariant holds and \<open>TotalRequests\<close> is the number
  of recordings made so far (as an \<open>int64\<close>; read as a signed number it is that count
  while the count is below \<open>2^63\<close>).  Since the increments happen inside one critical
  section, this is what every observer sees: however the goroutines are scheduled,
  whenever the lock is free the aggregate is the result of a sequence of whole
  recordings, and the invariant holds.
\<close>

theorem recording_keeps_total:
  "(\<exists>r'. record_op os x r = Inr r'
      \<and> (is_attempt x \<longrightarrow>
           TotalRequests r' = TotalRequests r + 1
           \<and> (SuccessfulReqs r' = SuccessfulReqs r + 1 \<and> FailedReqs r' = FailedReqs r
              \<or> SuccessfulReqs r' = SuccessfulReqs r \<and> FailedReqs r' = FailedReqs r + 1))
      \<and> (TotalRequests r = SuccessfulReqs r + FailedReqs r \<longrightarrow>
           TotalRequests r' = SuccessfulReqs r' + FailedReqs r'))
   \<and> (\<forall>n. \<exists>r'. record_all os (take n xs) (results (NewLoadTest os)) = Inr r'
          \<and> TotalRequests r' = SuccessfulReqs r' + FailedReqs r'
          \<and> TotalRequests r' = word_of_nat (attempts (take n xs))
          \<and> (attempts (take n xs) < 2 ^ 63 \<longrightarrow>
               sint (TotalRequests r') = int (attempts (take n xs))))
   \<and> (holder (run_schedule os ts (initial_sys w)) = None \<longrightarrow>
        TotalRequests (agg (run_schedule os ts (initial_sys w)))
          = SuccessfulReqs (agg (run_schedule os ts (initial_sys w)))
            + FailedReqs (agg (run_schedule os ts (initial_sys w)))
        \<and> (\<exists>ys. record_all os ys (results (NewLoadTest os))
                    = Inr (agg (run_schedule os ts (initial_sys w)))
               \<and> TotalRequests (agg (run_schedule os ts (initial_sys w)))
                    = word_of_nat (attempts ys)))"
proof -
  have one: "\<exists>r'. record_op os x r = Inr r'
      \<and> (is_attempt x \<longrightarrow>
           TotalRequests r' = TotalRequests r + 1
           \<and> (SuccessfulReqs r' = SuccessfulReqs r + 1 \<and> FailedReqs r' = FailedReqs r
              \<or> SuccessfulReqs r' = SuccessfulReqs r \<and> FailedReqs r' = FailedReqs r + 1))
      \<and> (TotalRequests r = SuccessfulReqs r + FailedReqs r \<longrightarrow>
           TotalRequests r' = SuccessfulReqs r' + FailedReqs r')"
  proof -
    obtain r1 where r1: "record_op os x r = Inr r1"
      and t1: "TotalRequests r1 = TotalRequests r + (if is_attempt x then 1 else 0)"
      and s1: "SuccessfulReqs r1 =
           SuccessfulReqs r + (if is_attempt x \<and> failure_message x = None then 1 else 0)"
      and f1: "FailedReqs r1 = FailedReqs r + (if failure_message x = None then 0 else 1)"
      using record_op_effect [of os x r] by blast
    have fa: "failure_message x \<noteq> None \<Longrightarrow> is_attempt x"
      by (cases x) auto
    have "is_attempt x \<longrightarrow>
           TotalRequests r1 = TotalRequests r + 1
           \<and> (SuccessfulReqs r1 = SuccessfulReqs r + 1 \<and> FailedReqs r1 = FailedReqs r
              \<or> SuccessfulReqs r1 = SuccessfulReqs r \<and> FailedReqs r1 = FailedReqs r + 1)"
      using t1 s1 f1 by auto
    moreover have "TotalRequests r = SuccessfulReqs r + FailedReqs r \<longrightarrow>
           TotalRequests r1 = SuccessfulReqs r1 + FailedReqs r1"
      using t1 s1 f1 fa by auto
    ultimately show ?thesis using r1 by blast
  qed
  have counted: "TotalRequests r' = word_of_nat (attempts ys)
      \<and> SuccessfulReqs r' + FailedReqs r' = word_of_nat (attempts ys)"
    if "record_all os ys newTestResults = Inr r'" for ys r'
  proof -
    obtain r'' where "record_all os ys newTestResults = Inr r''"
      and t': "TotalRequests r'' = TotalRequests newTestResults + word_of_nat (attempts ys)"
      and s': "SuccessfulReqs r'' + FailedReqs r'' =
           SuccessfulReqs newTestResults + FailedReqs newTestResults + word_of_nat (attempts ys)"
      using record_all_counters [of os ys newTestResults] by blast
    with that have "r'' = r'" by simp
    with t' s' show ?thesis by (simp add: newTestResults_def)
  qed
  have many: "\<exists>r'. record_all os (take n xs) (results (NewLoadTest os)) = Inr r'
          \<and> TotalRequests r' = SuccessfulReqs r' + FailedReqs r'
          \<and> TotalRequests r' = word_of_nat (attempts (take n xs))
          \<and> (attempts (take n xs) < 2 ^ 63 \<longrightarrow>
               sint (TotalRequests r') = int (attempts (take n xs)))" for n
  proof -
    obtain r' where r': "record_all os (take n xs) newTestResults = Inr r'"
      using record_all_counters [of os "take n xs" newTestResults] by blast
    note c = counted [OF r']
    have "attempts (take n xs) < 2 ^ 63 \<longrightarrow> sint (TotalRequests r') = int (attempts (take n xs))"
      using c by (simp add: sint_word_of_nat_64)
    with r' c show ?thesis by (simp add: NewLoadTest_def)
  qed
  have seen: "TotalRequests (agg (run_schedule os ts (initial_sys w)))
          = SuccessfulReqs (agg (run_schedule os ts (initial_sys w)))
            + FailedReqs (agg (run_schedule os ts (initial_sys w)))
        \<and> (\<exists>ys. record_all os ys (results (NewLoadTest os))
                    = Inr (agg (run_schedule os ts (initial_sys w)))
               \<and> TotalRequests (agg (run_schedule os ts (initial_sys w)))
                    = word_of_nat (attempts ys))"
    if free: "holder (run_schedule os ts (initial_sys w)) = None"
  proof -
    obtain ys where ys: "record_all os ys newTestResults
        = Inr (agg (run_schedule os ts (initial_sys w)))"
      using observable_is_serial [OF free] by blast
    note c = counted [OF ys]
    from ys c show ?thesis by (auto simp: NewLoadTest_def)
  qed
  from one many seen show ?thesis by blast
qed

theorem recording_keeps_total_witness:
  "is_attempt (SendMessage 0 0 None 5)
   \<and> TotalRequests newTestResults = SuccessfulReqs newTestResults + FailedReqs newTestResults
   \<and> (\<exists>r'. record_op (sample_options ''10s'' 2 1) (SendMessage 0 0 None 5) newTestResults = Inr r'
        \<and> TotalRequests r' = 1 \<and> TotalRequests r' = SuccessfulReqs r' + FailedReqs r')
   \<and> attempts [SendMessage 0 0 None 5, RecordError ''client_creation_failed_1'' ''connection refused'',
        Received 7, SendMessage 0 1 (Some ''broken pipe'') 0] < 2 ^ 63
   \<and> (\<exists>r'. record_all (sample_options ''10s'' 2 1)
          [SendMessage 0 0 None 5, RecordError ''client_creation_failed_1'' ''connection refused'',
           Received 7, SendMessage 0 1 (Some ''broken pipe'') 0]
          (results (NewLoadTest (sample_options ''10s'' 2 1))) = Inr r'
        \<and> TotalRequests r' = SuccessfulReqs r' + FailedReqs r'
        \<and> sint (TotalRequests r') = 3)
   \<and> holder (run_schedule (sample_options ''10s'' 2 1) [0, 1, 0, 0, 1, 0, 0, 0, 0, 0, 1, 1, 1, 1, 1, 1]
        (initial_sys sample_waiting)) = None
   \<and> TotalRequests (agg (run_schedule (sample_options ''10s'' 2 1)
        [0, 1, 0, 0, 1, 0, 0, 0, 0, 0, 1, 1, 1, 1, 1, 1] (initial_sys sample_waiting)))
      = SuccessfulReqs (agg (run_schedule (sample_options ''10s'' 2 1)
        [0, 1, 0, 0, 1, 0, 0, 0, 0, 0, 1, 1, 1, 1, 1, 1] (initial_sys sample_waiting)))
        + FailedReqs (agg (run_schedule (sample_options ''10s'' 2 1)
        [0, 1, 0, 0, 1, 0, 0, 0, 0, 0, 1, 1, 1, 1, 1, 1] (initial_sys sample_waiting)))
   \<and> TotalRequests (agg (run_schedule (sample_options ''10s'' 2 1)
        [0, 1, 0, 0, 1, 0, 0, 0, 0, 0, 1, 1, 1, 1, 1, 1] (initial_sys sample_waiting))) = 2"
proof -
  let ?os = "sample_options ''10s'' 2 1"
  let ?xs = "[SendMessage 0 0 None 5, RecordError ''client_creation_failed_1'' ''connection refused'',
        Received 7, SendMessage 0 1 (Some ''broken pipe'') 0]"
  let ?ts = "[0, 1, 0, 0, 1, 0, 0, 0, 0, 0, 1, 1, 1, 1, 1, 1] :: nat list"
  note inst = recording_keeps_total
    [of ?os "SendMessage 0 0 None 5" newTestResults ?xs ?ts sample_waiting]
  have a: "is_attempt (SendMessage 0 0 None 5)" by simp
  have i: "TotalRequests newTestResults = SuccessfulReqs newTestResults + FailedReqs newTestResults"
    by (simp add: newTestResults_def)
  have z: "TotalRequests newTestResults = 0"
    by (simp add: newTestResults_def)
  have n: "attempts ?xs = 3" by (simp add: attempts_def)
  have one: "\<exists>r'. record_op ?os (SendMessage 0 0 None 5) newTestResults = Inr r'
        \<and> TotalRequests r' = 1 \<and> TotalRequests r' = SuccessfulReqs r' + FailedReqs r'"
    using inst a i z by auto
  have many: "\<exists>r'. record_all ?os ?xs (results (NewLoadTest ?os)) = Inr r'
        \<and> TotalRequests r' = SuccessfulReqs r' + FailedReqs r'
        \<and> sint (TotalRequests r') = 3"
  proof -
    from inst
    have "\<exists>r'. record_all ?os (take 4 ?xs) (results (NewLoadTest ?os)) = Inr r'
          \<and> TotalRequests r' = SuccessfulReqs r' + FailedReqs r'
          \<and> TotalRequests r' = word_of_nat (attempts (take 4 ?xs))
          \<and> (attempts (take 4 ?xs) < 2 ^ 63 \<longrightarrow>
               sint (TotalRequests r') = int (attempts (take 4 ?xs)))"
      by blast
    then show ?thesis using n by auto
  qed
  have free: "holder (run_schedule ?os ?ts (initial_sys sample_waiting)) = None"
    by code_simp
  have inv: "TotalRequests (agg (run_schedule ?os ?ts (initial_sys sample_waiting)))
      = SuccessfulReqs (agg (run_schedule ?os ?ts (initial_sys sample_waiting)))
        + FailedReqs (agg (run_schedule ?os ?ts (initial_sys sample_waiting)))"
    using inst free by blast
  have two: "TotalRequests (agg (run_schedule ?os ?ts (initial_sys sample_waiting))) = 2"
    by code_simp
  from a i one n many free inv two show ?thesis by simp
qed

text \<open>
  C6.  After any sequence of recordings every category holds at most three examples,
  and they are the messages of the first (up to three) failures classified into that
  category, in the order they were recorded.  A message is appended only while fewer
  than three are stored, so the bound is kept from any aggregate that satisfies it.
\<close>

theorem examples_at_most_three:
  "(\<exists>r'. record_all os xs (results (NewLoadTest os)) = Inr r'
      \<and> (\<forall>c info. ErrorCategories r' c = Some info \<longrightarrow>
            length (Examples info) \<le> 3 \<and> Examples info = take 3 (classified c xs))
      \<and> dom (ErrorCategories r') = set all_categories)
   \<and> ((\<forall>c info. ErrorCategories r c = Some info \<longrightarrow> length (Examples info) \<le> 3) \<longrightarrow>
       (\<exists>r'. record_all os xs r = Inr r'
          \<and> (\<forall>c info. ErrorCategories r' c = Some info \<longrightarrow> length (Examples info) \<le> 3)))"
proof -
  have cap: "length (Examples info') \<le> 3 \<and> (Examples info = [] \<longrightarrow> Examples info' = take 3 (classified c xs))"
    if h1: "record_all os xs r0 = Inr r'" and h2: "ErrorCategories r' c = Some info'"
      and h3: "ErrorCategories r0 c = Some info" and h4: "length (Examples info) \<le> 3"
    for r0 r' c info info'
  proof -
    obtain r'' info'' where "record_all os xs r0 = Inr r''" "ErrorCategories r'' c = Some info''"
      and ex: "Examples info'' =
         Examples info @ take (3 - length (Examples info)) (classified c xs)"
      using record_all_examples [OF h3, of os xs] by blast
    with h1 h2 have "info'' = info'" by simp
    with ex h4 show ?thesis by auto
  qed
  have keep: "\<exists>r'. record_all os xs r0 = Inr r'
      \<and> dom (ErrorCategories r') = dom (ErrorCategories r0)
      \<and> (\<forall>c info'. ErrorCategories r' c = Some info' \<longrightarrow>
            (\<exists>info. ErrorCategories r0 c = Some info))" for r0
  proof -
    obtain r' where r': "record_all os xs r0 = Inr r'"
      "dom (ErrorCategories r') = dom (ErrorCategories r0)"
      using record_all_dom [of os xs r0] by blast
    then have "\<exists>info. ErrorCategories r0 c = Some info"
      if "ErrorCategories r' c = Some info'" for c info'
      using that by (metis domD domI)
    with r' show ?thesis by blast
  qed
  have fresh: "\<exists>r'. record_all os xs (results (NewLoadTest os)) = Inr r'
      \<and> (\<forall>c info. ErrorCategories r' c = Some info \<longrightarrow>
            length (Examples info) \<le> 3 \<and> Examples info = take 3 (classified c xs))
      \<and> dom (ErrorCategories r') = set all_categories"
  proof -
    obtain r' where r': "record_all os xs newTestResults = Inr r'"
      and d: "dom (ErrorCategories r') = dom (ErrorCategories newTestResults)"
      and orig: "\<And>c info'. ErrorCategories r' c = Some info' \<Longrightarrow>
            \<exists>info. ErrorCategories newTestResults c = Some info"
      using keep [of newTestResults] by blast
    have "length (Examples info') \<le> 3 \<and> Examples info' = take 3 (classified c xs)"
      if h: "ErrorCategories r' c = Some info'" for c info'
    proof -
      obtain info where i: "ErrorCategories newTestResults c = Some info"
        using orig [OF h] by blast
      then have "initializeErrorCategories c = Some info"
        by (simp add: newTestResults_def)
      then have "Examples info = []"
        using initializeErrorCategories_Examples by blast
      then show ?thesis using cap [OF r' h i] by simp
    qed
    moreover have "dom (ErrorCategories r') = set all_categories"
      using d by (simp add: newTestResults_def dom_initializeErrorCategories)
    ultimately show ?thesis using r' by (simp add: NewLoadTest_def)
  qed
  have pres: "\<exists>r'. record_all os xs r = Inr r'
          \<and> (\<forall>c info. ErrorCategories r' c = Some info \<longrightarrow> length (Examples info) \<le> 3)"
    if inv: "\<forall>c info. ErrorCategories r c = Some info \<longrightarrow> length (Examples info) \<le> 3"
  proof -
    obtain r' where r': "record_all os xs r = Inr r'"
      and orig: "\<And>c info'. ErrorCategories r' c = Some info' \<Longrightarrow>
            \<exists>info. ErrorCategories r c = Some info"
      using keep [of r] by blast
    have "length (Examples info') \<le> 3" if h: "ErrorCategories r' c = Some info'" for c info'
    proof -
      obtain info where i: "ErrorCategories r c = Some info"
        using orig [OF h] by blast
      with inv have "length (Examples info) \<le> 3" by blast
      then show ?thesis using cap [OF r' h i] by simp
    qed
    with r' show ?thesis by blast
  qed
  from fresh pres show ?thesis by blast
qed

theorem examples_at_most_three_witness:
  "(\<exists>r' info. record_all (sample_options ''10s'' 3 3)
          [RecordError ''client_creation_failed_0'' ''dial: i/o timeout'',
           SendMessage 1 0 (Some ''write timeout'') 0,
           SendMessage 1 1 None 9,
           SendMessage 1 2 (Some ''connection refused'') 0,
           SendMessage 2 0 (Some ''context deadline exceeded'') 0,
           SendMessage 2 1 (Some ''read TIMEOUT'') 0]
          (results (NewLoadTest (sample_options ''10s'' 3 3))) = Inr r'
        \<and> ErrorCategories r' ''timeout'' = Some info
        \<and> Examples info = [''dial: i/o timeout'', ''write timeout'', ''context deadline exceeded'']
        \<and> length (Examples info) \<le> 3)
   \<and> (\<exists>r' info. record_all (sample_options ''10s'' 3 3)
          [SendMessage 1 0 (Some ''write timeout'') 0] newTestResults = Inr r'
        \<and> ErrorCategories r' ''timeout'' = Some info
        \<and> length (Examples info) \<le> 3)"
proof -
  let ?os = "sample_options ''10s'' 3 3"
  let ?xs = "[RecordError ''client_creation_failed_0'' ''dial: i/o timeout'',
           SendMessage 1 0 (Some ''write timeout'') 0,
           SendMessage 1 1 None 9,
           SendMessage 1 2 (Some ''connection refused'') 0,
           SendMessage 2 0 (Some ''context deadline exceeded'') 0,
           SendMessage 2 1 (Some ''read TIMEOUT'') 0]"
  let ?ys = "[SendMessage 1 0 (Some ''write timeout'') 0]"
  have tm: "''timeout'' \<in> set all_categories"
    by (simp add: all_categories_def ErrorCategoryTimeout_def)
  have hyp: "\<forall>c info. ErrorCategories newTestResults c = Some info \<longrightarrow> length (Examples info) \<le> 3"
    using initializeErrorCategories_Examples by (auto simp: newTestResults_def)
  \<comment> \<open>the first part, on the longer sequence\<close>
  obtain r' where r': "record_all ?os ?xs (results (NewLoadTest ?os)) = Inr r'"
    and ex: "\<And>c info. ErrorCategories r' c = Some info \<Longrightarrow>
            length (Examples info) \<le> 3 \<and> Examples info = take 3 (classified c ?xs)"
    and d: "dom (ErrorCategories r') = set all_categories"
    using examples_at_most_three [of ?os ?xs newTestResults] by blast
  obtain info where i: "ErrorCategories r' ''timeout'' = Some info"
    using d tm by blast
  have "take 3 (classified ''timeout'' ?xs)
          = [''dial: i/o timeout'', ''write timeout'', ''context deadline exceeded'']"
    by code_simp
  then have "Examples info = [''dial: i/o timeout'', ''write timeout'', ''context deadline exceeded'']"
    "length (Examples info) \<le> 3"
    using ex [OF i] by simp_all
  with r' i have first: "\<exists>r' info. record_all ?os ?xs (results (NewLoadTest ?os)) = Inr r'
        \<and> ErrorCategories r' ''timeout'' = Some info
        \<and> Examples info = [''dial: i/o timeout'', ''write timeout'', ''context deadline exceeded'']
        \<and> length (Examples info) \<le> 3"
    by blast
  \<comment> \<open>the second part, from an aggregate that satisfies the bound\<close>
  obtain q where q: "record_all ?os ?ys newTestResults = Inr q"
    and qb: "\<And>c info. ErrorCategories q c = Some info \<Longrightarrow> length (Examples info) \<le> 3"
    using examples_at_most_three [of ?os ?ys newTestResults] hyp by blast
  obtain q' where q': "record_all ?os ?ys (results (NewLoadTest ?os)) = Inr q'"
    and qd: "dom (ErrorCategories q') = set all_categories"
    using examples_at_most_three [of ?os ?ys newTestResults] by blast
  have "q' = q" using q q' by (simp add: NewLoadTest_def)
  then obtain qi where qi: "ErrorCategories q ''timeout'' = Some qi"
    using qd tm by blast
  with q qb have second: "\<exists>r' info. record_all ?os ?ys newTestResults = Inr r'
        \<and> ErrorCategories r' ''timeout'' = Some info \<and> length (Examples info) \<le> 3"
    by blast
  from first second show ?thesis by blast
qed

section \<open>Properties of the percentile and the report\<close>

lemma sort_key_sint_ascending:
  "sorted (map sint (sort_key sint xs)) \<and> mset (sort_key sint xs) = mset xs"
  by simp

lemma sdiv_100:
  "(x::int) sdiv 100 = (if 0 \<le> x then x div 100 else - ((- x) div 100))"
  by (simp add: signed_divide_int_def sgn_if)

lemma sdiv_100_bounds:
  fixes x :: int
  assumes "- (2 ^ 63) \<le> x" "x < 2 ^ 63"
  shows "- (2 ^ 63) \<le> x sdiv 100" "x sdiv 100 < 2 ^ 63"
  using assms unfolding sdiv_100 by auto

lemma sint_word_of_int_64:
  "- (2 ^ 63) \<le> k \<Longrightarrow> k < 2 ^ 63 \<Longrightarrow> sint (word_of_int k :: 64 word) = k"
  by (simp add: sint_sbintrunc' signed_take_bit_int_eq_self)

lemma nat_sdiv_100:
  "0 \<le> a \<Longrightarrow> nat ((a * int n) sdiv 100) = nat a * n div 100"
  by (simp add: sdiv_100 nat_div_distrib nat_mult_distrib)

text \<open>
  What \<open>calculatePercentile\<close> returns whenever the product \<open>percentile * len\<close> does
  not overflow: a quotient below zero is an index out of range.
\<close>

lemma calculatePercentile_no_overflow:
  assumes ne: "latencies \<noteq> []"
    and len: "length latencies < 2 ^ 63"
    and lo: "- (2 ^ 63) \<le> sint p * int (length latencies)"
    and hi: "sint p * int (length latencies) < 2 ^ 63"
  shows "calculatePercentile latencies p =
           (if (sint p * int (length latencies)) sdiv 100 < 0 then Inl IndexOutOfRange
            else Inr (sort_key sint latencies !
                        min (nat ((sint p * int (length latencies)) sdiv 100))
                            (length latencies - 1)))"
proof -
  let ?n = "length latencies"
  let ?L = "word_of_nat ?n :: 64 word"
  let ?x = "sint p * int ?n"
  let ?k = "?x sdiv 100"
  have n_pos: "0 < ?n" using ne by simp
  have sL: "sint ?L = int ?n"
    using len by (rule sint_word_of_nat_64)
  have "sint (p * ?L) = signed_take_bit 63 (sint p * sint ?L)"
    by (simp add: sint_word_mult)
  also have "\<dots> = ?x"
    unfolding sL using lo hi by (intro signed_take_bit_int_eq_self) auto
  finally have sprod: "sint (p * ?L) = ?x" .
  have kb: "- (2 ^ 63) \<le> ?k" "?k < 2 ^ 63"
    using sdiv_100_bounds [OF lo hi] by auto
  have sidx: "sint (go_div (p * ?L) 100) = ?k"
    unfolding go_div_def sprod using kb by (simp add: sint_word_of_int_64)
  have "sint (?L - 1) = signed_take_bit 63 (sint ?L - sint (1 :: 64 word))"
    by (simp add: sint_word_diff)
  also have "\<dots> = int ?n - 1"
    unfolding sL using len n_pos by (simp add: signed_take_bit_int_eq_self)
  finally have sL1: "sint (?L - 1) = int ?n - 1" .
  show ?thesis
  proof (cases "int ?n \<le> ?k")
    case True
    then have "calculatePercentile latencies p = go_index (sort_key sint latencies) (?L - 1)"
      using ne by (simp add: calculatePercentile_def Let_def sL sidx)
    also have "\<dots> = Inr (sort_key sint latencies ! (?n - 1))"
      using n_pos by (simp add: go_index_def sL1 nat_diff_distrib')
    finally show ?thesis using True n_pos by (simp add: min_def)
  next
    case False
    then have "calculatePercentile latencies p
                 = go_index (sort_key sint latencies) (go_div (p * ?L) 100)"
      using ne by (simp add: calculatePercentile_def Let_def sL sidx)
    also have "\<dots> = (if ?k < 0 then Inl IndexOutOfRange
                      else Inr (sort_key sint latencies ! nat ?k))"
      using False by (auto simp: go_index_def sidx)
    finally show ?thesis using False n_pos by (auto simp: min_def)
  qed
qed

text \<open>
  Outside the percentiles: with a negative percentile the quotient can be negative,
  and the slice access panics; here the index is \<open>-2\<close>.
\<close>

lemma calculatePercentile_negative_index:
  "calculatePercentile [1000000, 2000000, 3000000, 4000000, 5000000] (- 50)
     = Inl IndexOutOfRange"
  by code_simp

text \<open>
  C3.  For every non-empty list of \<open>n\<close> latencies and every percentile \<open>p\<close> from
  \<open>0\<close> to \<open>100\<close>, \<open>calculatePercentile\<close> returns the element at index
  \<open>(p * n) / 100\<close>, clamped to \<open>n - 1\<close>, of the list sorted ascending (a slice of
  8-byte values has fewer than \<open>2^56\<close> elements).  The same holds for every \<open>p\<close>
  for which the product \<open>p * n\<close> fits Go's \<open>int\<close> and the truncated quotient
  \<open>(p * n) / 100\<close> is not negative.  For \<open>[1,2,3,4,5]\<close> ms the result is 3 ms at
  \<open>p = 50\<close>, 5 ms at \<open>p = 90\<close> and 1 ms at \<open>p = 10\<close>.
\<close>

theorem calculatePercentile_index:
  "(latencies \<noteq> [] \<and> length latencies < 2 ^ 56 \<and> 0 \<le> sint p \<and> sint p \<le> 100 \<longrightarrow>
      calculatePercentile latencies p =
        Inr (sort_key sint latencies !
               min (nat (sint p) * length latencies div 100) (length latencies - 1)))
   \<and> (latencies \<noteq> [] \<and> length latencies < 2 ^ 63
        \<and> - (2 ^ 63) \<le> sint p * int (length latencies)
        \<and> sint p * int (length latencies) < 2 ^ 63
        \<and> 0 \<le> (sint p * int (length latencies)) sdiv 100 \<longrightarrow>
      calculatePercentile latencies p =
        Inr (sort_key sint latencies !
               min (nat ((sint p * int (length latencies)) sdiv 100)) (length latencies - 1)))
   \<and> calculatePercentile [1000000, 2000000, 3000000, 4000000, 5000000] 50 = Inr 3000000
   \<and> calculatePercentile [1000000, 2000000, 3000000, 4000000, 5000000] 90 = Inr 5000000
   \<and> calculatePercentile [1000000, 2000000, 3000000, 4000000, 5000000] 10 = Inr 1000000"
  (is "?P1 \<and> ?P2 \<and> ?P3")
proof -
  have general: "calculatePercentile latencies p =
        Inr (sort_key sint latencies !
               min (nat ((sint p * int (length latencies)) sdiv 100)) (length latencies - 1))"
    if ne: "latencies \<noteq> []" and len: "length latencies < 2 ^ 63"
      and lo: "- (2 ^ 63) \<le> sint p * int (length latencies)"
      and hi: "sint p * int (length latencies) < 2 ^ 63"
      and q: "0 \<le> (sint p * int (length latencies)) sdiv 100"
    using calculatePercentile_no_overflow [OF ne len lo hi] q by simp
  have percent: "calculatePercentile latencies p =
        Inr (sort_key sint latencies !
               min (nat (sint p) * length latencies div 100) (length latencies - 1))"
    if ne: "latencies \<noteq> []" and len: "length latencies < 2 ^ 56" and p0: "0 \<le> sint p"
      and p100: "sint p \<le> 100"
  proof -
    have len63: "length latencies < 2 ^ 63"
      using len by simp
    have nonneg: "0 \<le> sint p * int (length latencies)"
      using p0 by simp
    then have lo: "- (2 ^ 63) \<le> sint p * int (length latencies)"
      by simp
    have "sint p * int (length latencies) \<le> 100 * int (length latencies)"
      using p100 by (simp add: mult_right_mono)
    also have "\<dots> < 100 * 2 ^ 56"
      using len by simp
    also have "\<dots> < (2 ^ 63 :: int)"
      by simp
    finally have hi: "sint p * int (length latencies) < 2 ^ 63" .
    have q: "0 \<le> (sint p * int (length latencies)) sdiv 100"
      using nonneg by (simp add: sdiv_100 pos_imp_zdiv_nonneg_iff)
    show ?thesis
      using general [OF ne len63 lo hi q] by (simp add: nat_sdiv_100 [OF p0])
  qed
  have examples: ?P3
    by code_simp
  have p1: ?P1 using percent by blast
  have p2: ?P2 using general by blast
  show ?thesis by (rule conjI [OF p1 conjI [OF p2 examples]])
qed

theorem calculatePercentile_index_witness:
  "[5000000, 1000000, 4000000, 2000000, 3000000] \<noteq> ([] :: time_Duration list)
   \<and> length [5000000, 1000000, 4000000, 2000000, 3000000 :: time_Duration] < 2 ^ 56
   \<and> 0 \<le> sint (50 :: go_int) \<and> sint (50 :: go_int) \<le> 100
   \<and> calculatePercentile [5000000, 1000000, 4000000, 2000000, 3000000] 50 = Inr 3000000
   \<and> sint (100 :: go_int) \<le> 100
   \<and> calculatePercentile [5000000, 1000000, 4000000, 2000000, 3000000] 100 = Inr 5000000
   \<and> 0 \<le> (sint (- 10 :: go_int)
             * int (length [5000000, 1000000, 4000000, 2000000, 3000000 :: time_Duration]))
           sdiv 100
   \<and> calculatePercentile [5000000, 1000000, 4000000, 2000000, 3000000] (- 10) = Inr 1000000"
proof -
  let ?xs = "[5000000, 1000000, 4000000, 2000000, 3000000] :: time_Duration list"
  note inst50 = calculatePercentile_index [of ?xs 50, THEN conjunct1, rule_format]
  note inst100 = calculatePercentile_index [of ?xs 100, THEN conjunct1, rule_format]
  note instm10 = calculatePercentile_index [of ?xs "- 10", THEN conjunct2, THEN conjunct1,
      rule_format]
  have h: "?xs \<noteq> []" "length ?xs < 2 ^ 56" "0 \<le> sint (50 :: go_int)"
    "sint (50 :: go_int) \<le> 100" "0 \<le> sint (100 :: go_int)" "sint (100 :: go_int) \<le> 100"
    by simp_all
  have v50: "sort_key sint ?xs ! min (nat (sint (50 :: go_int)) * length ?xs div 100)
               (length ?xs - 1) = 3000000"
    by code_simp
  have v100: "sort_key sint ?xs ! min (nat (sint (100 :: go_int)) * length ?xs div 100)
               (length ?xs - 1) = 5000000"
    by code_simp
  have r50: "calculatePercentile ?xs 50 = Inr 3000000"
    using inst50 h v50 by simp
  have r100: "calculatePercentile ?xs 100 = Inr 5000000"
    using inst100 h v100 by simp
  have m: "sint (- 10 :: go_int) * int (length ?xs) = - 50"
    by simp
  have q: "0 \<le> (sint (- 10 :: go_int) * int (length ?xs)) sdiv 100"
    unfolding m by (simp add: sdiv_100)
  have vm: "sort_key sint ?xs !
              min (nat ((sint (- 10 :: go_int) * int (length ?xs)) sdiv 100)) (length ?xs - 1)
            = 1000000"
    unfolding m by (simp add: sdiv_100)
  have hm: "length ?xs < 2 ^ 63" "- (2 ^ 63) \<le> sint (- 10 :: go_int) * int (length ?xs)"
    "sint (- 10 :: go_int) * int (length ?xs) < 2 ^ 63"
    unfolding m by simp_all
  have rm: "calculatePercentile ?xs (- 10) = Inr 1000000"
    using instm10 h(1) hm q vm by simp
  from h(1,2,3,4) r50 h(6) r100 q rm show ?thesis by (intro conjI)
qed

text \<open>
  The two P50 computations in general: \<open>printResults\<close> reads the middle position of
  the samples as recorded, \<open>addEntry\<close> the same position of the sorted samples, which is
  the index \<open>50 * n / 100\<close> clamped to \<open>n - 1\<close>.
\<close>

lemma half_index: "0 < n \<Longrightarrow> min (50 * n div 100) (n - 1) = n div (2::nat)"
  by (simp add: min_def)

lemma printResults_p50_middle:
  "Latencies (results lt) \<noteq> [] \<Longrightarrow>
   p50Latency (printResults lt) = Latencies (results lt) ! (length (Latencies (results lt)) div 2)"
  by (simp add: printResults_def Let_def)

lemma addEntry_p50_sorted:
  "Latencies (results lt) \<noteq> [] \<Longrightarrow>
   P50Latency (last (addEntry es lt)) =
     fdiv (float64_of_int
             (sort_key sint (Latencies (results lt)) !
                min (50 * length (Latencies (results lt)) div 100)
                    (length (Latencies (results lt)) - 1)))
          (Finite 1000000)"
  by (simp add: addEntry_def Let_def half_index)

text \<open>With no attempt recorded both success rates are \<open>0/0\<close>.\<close>

lemma success_rate_zero_total:
  "TotalRequests (results lt) = 0 \<Longrightarrow> SuccessfulReqs (results lt) = 0 \<Longrightarrow>
   successPercent (printResults lt) = NaN \<and> SuccessRate (last (addEntry es lt)) = NaN"
  by (simp add: printResults_def addEntry_def Let_def float64_of_int_def)

text \<open>
  C2.  The P50 of \<open>printResults\<close> is the middle element of the samples in the order
  they were recorded, not of the sorted samples: the run below records 3 ms, 1 ms and
  2 ms, and \<open>printResults\<close> reports 1 ms, while the element at index
  \<open>50 * 3 / 100\<close> of the sorted samples is 2 ms, which is what \<open>addEntry\<close> stores for
  the same run.
\<close>

theorem printResults_p50_not_sorted:
  "(\<exists>res. Run (sample_env None 1 None [3000000, 1000000, 2000000])
               (NewLoadTest (sample_options ''10s'' 3 1)) = Inr res
       \<and> returned res = None
       \<and> Latencies (results (final res)) = [3000000, 1000000, 2000000]
       \<and> map_option p50Latency (printed res) = Some 1000000
       \<and> map P50Latency (addEntry [] (final res)) = [Finite 2])
   \<and> sort_key sint [3000000, 1000000, 2000000 :: time_Duration] ! min (50 * 3 div 100) (3 - 1)
       = 2000000"
proof -
  have "case Run (sample_env None 1 None [3000000, 1000000, 2000000])
               (NewLoadTest (sample_options ''10s'' 3 1)) of
          Inl p \<Rightarrow> False
        | Inr res \<Rightarrow> returned res = None
            \<and> Latencies (results (final res)) = [3000000, 1000000, 2000000]
            \<and> map_option p50Latency (printed res) = Some 1000000
            \<and> map P50Latency (addEntry [] (final res)) = [Finite 2]"
    by code_simp
  then have run: "\<exists>res. Run (sample_env None 1 None [3000000, 1000000, 2000000])
               (NewLoadTest (sample_options ''10s'' 3 1)) = Inr res
       \<and> returned res = None
       \<and> Latencies (results (final res)) = [3000000, 1000000, 2000000]
       \<and> map_option p50Latency (printed res) = Some 1000000
       \<and> map P50Latency (addEntry [] (final res)) = [Finite 2]"
    by (simp split: sum.splits)
  have "sort_key sint [3000000, 1000000, 2000000 :: time_Duration] ! min (50 * 3 div 100) (3 - 1)
       = 2000000"
    by code_simp
  with run show ?thesis by blast
qed

text \<open>
  C1.  The success rate is computed as \<open>float64(successfulReqs) / float64(totalRequests) * 100\<close>
  with no test of the divisor: in the run below every worker sees the context
  cancelled at its first check, the total stays \<open>0\<close>, and both \<open>printResults\<close> and
  \<open>addEntry\<close> produce \<open>NaN\<close>.
\<close>

theorem success_rate_NaN_on_zero_total:
  "\<exists>res. Run (sample_env None 0 None []) (NewLoadTest (sample_options ''10s'' 3 1)) = Inr res
      \<and> returned res = None
      \<and> TotalRequests (results (final res)) = 0
      \<and> map_option successPercent (printed res) = Some NaN
      \<and> map SuccessRate (addEntry [] (final res)) = [NaN]"
proof -
  have "case Run (sample_env None 0 None []) (NewLoadTest (sample_options ''10s'' 3 1)) of
          Inl p \<Rightarrow> False
        | Inr res \<Rightarrow> returned res = None
            \<and> TotalRequests (results (final res)) = 0
            \<and> map_option successPercent (printed res) = Some NaN
            \<and> map SuccessRate (addEntry [] (final res)) = [NaN]"
    by code_simp
  then show ?thesis by (simp split: sum.splits)
qed

section \<open>Properties of the worker and the run\<close>

lemma sendLoop_takeWhile:
  "sendLoop env connID idxs =
     (\<exists>i \<in> set idxs. cancelled_at env i,
      map (send_event env connID) (takeWhile (\<lambda>i. \<not> cancelled_at env i) idxs))"
  by (induction idxs) (auto simp: send_event_def)

lemma takeWhile_upt_mem:
  "j \<in> set (takeWhile P [0..<n]) \<longleftrightarrow> j < n \<and> (\<forall>k\<le>j. P k)"
proof (induction n)
  case 0
  then show ?case by simp
next
  case (Suc n)
  show ?case
  proof (cases "\<forall>k<n. P k")
    case True
    then have "takeWhile P [0..<n] = [0..<n]" by (simp add: takeWhile_eq_all_conv)
    then have "takeWhile P [0..<Suc n] = (if P n then [0..<Suc n] else [0..<n])"
      by (simp add: takeWhile_append)
    then show ?thesis using True
      by (auto simp: less_Suc_eq le_less)
  next
    case False
    then obtain k where k: "k < n" "\<not> P k" by blast
    then have "takeWhile P [0..<Suc n] = takeWhile P [0..<n]"
      by (auto simp: takeWhile_append1)
    moreover have "\<not> (\<forall>k\<le>n. P k)" using k less_imp_le by blast
    ultimately show ?thesis using Suc k by (auto simp: less_Suc_eq)
  qed
qed

lemma runConnection_sends:
  "Record (SendMessage c m w l) \<in> set (runConnection connID os env) \<longleftrightarrow>
     dial env = None \<and>
     (\<exists>j. j < nat (sint (Loop os)) \<and> (\<forall>k\<le>j. \<not> cancelled_at env k) \<and>
          c = connID \<and> m = int j \<and> w = write_result env j \<and> l = write_latency env j)"
  by (cases "dial env")
     (auto simp: runConnection_def sendLoop_takeWhile send_event_def takeWhile_upt_mem)

text \<open>The close is attempted exactly when the loop ran through without seeing a cancellation.\<close>

lemma runConnection_close:
  "WriteClose code reason \<in> set (runConnection connID os env) \<longleftrightarrow>
     dial env = None \<and> (\<forall>i < nat (sint (Loop os)). \<not> cancelled_at env i) \<and>
     code = 1000 \<and> reason = ''test completed''"
  by (cases "dial env")
     (auto simp: runConnection_def sendLoop_takeWhile send_event_def)

text \<open>
  C8.  When the context is seen cancelled inside the loop, \<open>runConnection\<close> returns
  without the close: a worker whose connection opened and that finds the context
  cancelled at its first check takes its slot, opens the connection and gives the
  slot back, and no \<open>WriteClose\<close> is among its events.  After a complete loop the close
  is there.
\<close>

theorem runConnection_cancel_skips_close:
  "dial (sample_conn None 0 None [] 0) = None
   \<and> runConnection 0 (sample_options ''10s'' 1 1) (sample_conn None 0 None [] 0)
       = [AcquireSlot, NewClient, ReleaseSlot]
   \<and> runConnection 0 (sample_options ''10s'' 1 1) (sample_conn None 1 None [5] 0)
       = [AcquireSlot, NewClient, Record (SendMessage 0 0 None 5),
          WriteClose 1000 ''test completed'', ReleaseSlot]"
  by code_simp

text \<open>
  C9.  A worker checks the cancellation signal at the start of every iteration and
  before it sends.  If the signal is set at the check of iteration \<open>i\<close>, below the
  repeat count, the worker performs no send in iteration \<open>i\<close> or any later one; every
  send it performs belongs to an iteration whose check, and every earlier check, found
  the signal unset; and a send whose check found the signal unset is carried out
  whatever the signal does afterwards.
\<close>

theorem cancellation_stops_new_sends:
  "(i < nat (sint (Loop os)) \<and> cancelled_at env i \<and> i \<le> j \<longrightarrow>
      Record (SendMessage c (int j) w l) \<notin> set (runConnection connID os env))
   \<and> (Record (SendMessage c m w l) \<in> set (runConnection connID os env) \<longrightarrow>
        (\<exists>j. m = int j \<and> j < nat (sint (Loop os)) \<and> (\<forall>k\<le>j. \<not> cancelled_at env k)))
   \<and> (dial env = None \<and> j < nat (sint (Loop os)) \<and> (\<forall>k\<le>j. \<not> cancelled_at env k) \<longrightarrow>
        send_event env connID j \<in> set (runConnection connID os env))"
proof -
  have stop: "Record (SendMessage c (int j) w l) \<notin> set (runConnection connID os env)"
    if "cancelled_at env i" "i \<le> j"
    using that by (auto simp: runConnection_sends)
  have seen: "\<exists>j. m = int j \<and> j < nat (sint (Loop os)) \<and> (\<forall>k\<le>j. \<not> cancelled_at env k)"
    if "Record (SendMessage c m w l) \<in> set (runConnection connID os env)"
    using that unfolding runConnection_sends by blast
  have sent: "send_event env connID j \<in> set (runConnection connID os env)"
    if "dial env = None" "j < nat (sint (Loop os))" "\<forall>k\<le>j. \<not> cancelled_at env k"
    unfolding send_event_def runConnection_sends using that by blast
  from stop seen sent show ?thesis by blast
qed

theorem cancellation_stops_new_sends_witness:
  "2 < nat (sint (Loop (sample_options ''10s'' 1 5)))
   \<and> cancelled_at (sample_conn None 2 None [] 7) 2
   \<and> Record (SendMessage 7 2 None 0) \<notin> set (runConnection 7 (sample_options ''10s'' 1 5)
                                                (sample_conn None 2 None [] 7))
   \<and> Record (SendMessage 7 4 None 0) \<notin> set (runConnection 7 (sample_options ''10s'' 1 5)
                                                (sample_conn None 2 None [] 7))
   \<and> dial (sample_conn None 2 None [] 7) = None
   \<and> \<not> cancelled_at (sample_conn None 2 None [] 7) 0
   \<and> \<not> cancelled_at (sample_conn None 2 None [] 7) 1
   \<and> send_event (sample_conn None 2 None [] 7) 7 1
        \<in> set (runConnection 7 (sample_options ''10s'' 1 5) (sample_conn None 2 None [] 7))
   \<and> runConnection 7 (sample_options ''10s'' 1 5) (sample_conn None 2 None [] 7)
        = [AcquireSlot, NewClient, Record (SendMessage 7 0 None 0),
           Record (SendMessage 7 1 None 0), ReleaseSlot]"
proof -
  let ?os = "sample_options ''10s'' 1 5"
  let ?env = "sample_conn None 2 None [] 7"
  have a: "2 < nat (sint (Loop ?os))" "1 < nat (sint (Loop ?os))"
    by (simp_all add: sample_options_def)
  have b: "cancelled_at ?env 2" by (simp add: sample_conn_def)
  have d: "dial ?env = None" by (simp add: sample_conn_def)
  have e: "\<forall>k\<le>1. \<not> cancelled_at ?env k" by (simp add: sample_conn_def)
  have n2: "Record (SendMessage 7 2 None 0) \<notin> set (runConnection 7 ?os ?env)"
    using cancellation_stops_new_sends [of 2 ?os ?env 2 7 None 0 7] a b by simp
  have n4: "Record (SendMessage 7 4 None 0) \<notin> set (runConnection 7 ?os ?env)"
    using cancellation_stops_new_sends [of 2 ?os ?env 4 7 None 0 7] a b by simp
  have s1: "send_event ?env 7 1 \<in> set (runConnection 7 ?os ?env)"
    using cancellation_stops_new_sends [of 2 ?os ?env 1 7 None 0 7] a d e by blast
  have tr: "runConnection 7 ?os ?env
        = [AcquireSlot, NewClient, Record (SendMessage 7 0 None 0),
           Record (SendMessage 7 1 None 0), ReleaseSlot]"
    by code_simp
  have e0: "\<not> cancelled_at ?env 0" "\<not> cancelled_at ?env 1"
    by (simp_all add: sample_conn_def)
  from a(1) b n2 n4 d e0 s1 tr show ?thesis by blast
qed

text \<open>
  Outside the options that validation lets through: with a negative connection count
  making the pool panics.
\<close>

lemma Run_negative_connections:
  "ParseDuration (sample_env None 1 None [])
       (Duration (opts (NewLoadTest (sample_options ''10s'' (- 1) 1)))) = Inr 10000000000
   \<and> Run (sample_env None 1 None []) (NewLoadTest (sample_options ''10s'' (- 1) 1))
       = Inl MakechanSizeOutOfRange"
  by (simp add: Run_def sample_env_def sample_ParseDuration_def NewLoadTest_def
        sample_options_def)

text \<open>
  C7.  \<open>Run\<close> returns an error exactly when the duration string fails to parse; it
  then returns before starting the sampler or any worker and leaves the load test, its
  aggregate included, as it was.  For every duration that parses \<open>Run\<close> returns
  \<open>nil\<close>, whatever the connections and sends do, on every connection count that
  option validation lets through (in fact on every count that is not negative).
\<close>

theorem Run_error_iff_duration_invalid:
  "(\<forall>e. ParseDuration env (Duration (opts lt)) = Inl e \<longrightarrow>
        Run env lt = Inr \<lparr>returned = Some (''invalid duration format: '' @ e), final = lt,
                          launched = [], printed = None\<rparr>)
   \<and> (\<forall>d. ParseDuration env (Duration (opts lt)) = Inr d \<and> 0 \<le> sint (Connections (opts lt)) \<longrightarrow>
        (\<exists>res. Run env lt = Inr res \<and> returned res = None))
   \<and> (\<forall>res. Run env lt = Inr res \<longrightarrow>
        (returned res \<noteq> None) = (\<exists>e. ParseDuration env (Duration (opts lt)) = Inl e))"
proof -
  have bad: "Run env lt = Inr \<lparr>returned = Some (''invalid duration format: '' @ e), final = lt,
                          launched = [], printed = None\<rparr>"
    if "ParseDuration env (Duration (opts lt)) = Inl e" for e
    using that by (simp add: Run_def)
  have good: "\<exists>res. Run env lt = Inr res \<and> returned res = None"
    if p: "ParseDuration env (Duration (opts lt)) = Inr d"
      and c: "0 \<le> sint (Connections (opts lt))" for d
  proof -
    let ?recs = "List.map_filter recording_of
        (interleave (schedule env)
           (map (\<lambda>i. runConnection (int i) (opts lt) (conn env i))
              [0..<nat (sint (Connections (opts lt)))]))"
    obtain r where "record_all (opts lt) ?recs ((results lt)\<lparr>StartTime := now_start env\<rparr>) = Inr r"
      using record_all_counters by blast
    then show ?thesis
      using p c by (simp add: Run_def Let_def)
  qed
  have iff: "(returned res \<noteq> None) = (\<exists>e. ParseDuration env (Duration (opts lt)) = Inl e)"
    if "Run env lt = Inr res" for res
    using that
    by (cases "ParseDuration env (Duration (opts lt))")
       (auto simp: Run_def Let_def split: if_splits sum.splits)
  from bad good iff show ?thesis by blast
qed

theorem Run_error_iff_duration_invalid_witness:
  "ParseDuration (sample_env None 1 None [])
       (Duration (opts (NewLoadTest (sample_options ''invalid'' 10 1))))
     = Inl (''time: invalid duration '' @ [CHR 0x22] @ ''invalid'' @ [CHR 0x22])
   \<and> Run (sample_env None 1 None []) (NewLoadTest (sample_options ''invalid'' 10 1))
     = Inr \<lparr>returned = Some (''invalid duration format: time: invalid duration ''
                               @ [CHR 0x22] @ ''invalid'' @ [CHR 0x22]),
            final = NewLoadTest (sample_options ''invalid'' 10 1),
            launched = [], printed = None\<rparr>
   \<and> ParseDuration (sample_env (Some ''dial tcp: connection refused'') 1 None [])
       (Duration (opts (NewLoadTest (sample_options ''10s'' 3 1)))) = Inr 10000000000
   \<and> 0 \<le> sint (Connections (opts (NewLoadTest (sample_options ''10s'' 3 1))))
   \<and> (\<exists>res. Run (sample_env (Some ''dial tcp: connection refused'') 1 None [])
               (NewLoadTest (sample_options ''10s'' 3 1)) = Inr res
        \<and> returned res = None \<and> FailedReqs (results (final res)) = 3)"
proof -
  let ?e1 = "sample_env None 1 None []"
  let ?l1 = "NewLoadTest (sample_options ''invalid'' 10 1)"
  let ?e2 = "sample_env (Some ''dial tcp: connection refused'') 1 None []"
  let ?l2 = "NewLoadTest (sample_options ''10s'' 3 1)"
  have p1: "ParseDuration ?e1 (Duration (opts ?l1))
     = Inl (''time: invalid duration '' @ [CHR 0x22] @ ''invalid'' @ [CHR 0x22])"
    by (simp add: sample_env_def sample_ParseDuration_def NewLoadTest_def sample_options_def)
  have r1: "Run ?e1 ?l1
     = Inr \<lparr>returned = Some (''invalid duration format: time: invalid duration ''
                               @ [CHR 0x22] @ ''invalid'' @ [CHR 0x22]),
            final = ?l1, launched = [], printed = None\<rparr>"
    using Run_error_iff_duration_invalid [of ?e1 ?l1] p1 by simp
  have p2: "ParseDuration ?e2 (Duration (opts ?l2)) = Inr 10000000000"
    by (simp add: sample_env_def sample_ParseDuration_def NewLoadTest_def sample_options_def)
  have c2: "0 \<le> sint (Connections (opts ?l2))"
    by (simp add: NewLoadTest_def sample_options_def)
  obtain res where res: "Run ?e2 ?l2 = Inr res" "returned res = None"
    using Run_error_iff_duration_invalid [of ?e2 ?l2] p2 c2 by blast
  have "case Run ?e2 ?l2 of Inl p \<Rightarrow> False
        | Inr res \<Rightarrow> FailedReqs (results (final res)) = 3"
    by code_simp
  with res have "FailedReqs (results (final res)) = 3" by simp
  with res have r2: "\<exists>res. Run ?e2 ?l2 = Inr res
        \<and> returned res = None \<and> FailedReqs (results (final res)) = 3"
    by blast
  from p1 r1 p2 c2 r2 show ?thesis by blast
qed

text \<open>
  C10.  \<open>categorizeError\<close> applied to the \<open>nil\<close> error returns the category
  \<open>unknown\<close>.
\<close>

theorem categorizeError_nil:
  "categorizeError None = ''unknown''"
  by (simp add: categorizeError_def ErrorCategoryUnknown_def)

end
